theory Spec2Isabelle
  imports Main
begin

section \<open>Values, errors and the two external collaborators\<close>

text \<open>
  The program is a Streamlit script (\<^verbatim>\<open>app.py\<close>): five functions that each send one
  request to the LLM Gateway, and a module-level body that is executed from the top on
  every render and dispatches on \<^verbatim>\<open>st.session_state.step\<close>.

  Python values that reach the session through \<^verbatim>\<open>json.loads\<close> are dynamically typed;
  they are kept as a tagged union. A dict is an association list in insertion order,
  looked up with \<open>map_of\<close>. A Python string is kept as the bytes of its UTF-8 encoding;
  where the code works on the characters of a string (\<^verbatim>\<open>strip\<close>, iteration, \<^verbatim>\<open>len\<close>) the
  model works on the byte sequences of the code points.
\<close>

datatype pyval =
    PNone
  | PBool bool
  | PInt int
  | PFloat string
  | PStr string
  | PList "pyval list"
  | PDict "(string \<times> pyval) list"

text \<open>
  Every exception that the script can raise is a value. \<open>GatewayFailure\<close> is whatever
  \<^verbatim>\<open>client.responses.create\<close> raises (network, authentication, quota); the other
  constructors are the Python exceptions raised by the script's own expressions.
\<close>

datatype error =
    GatewayFailure string
  | IndexError
  | AttributeError
  | JSONDecodeError
  | KeyError
  | TypeError

text \<open>
  A Gateway response: \<^verbatim>\<open>.output\<close> (here \<open>outputs\<close>) is a list of items, \<^verbatim>\<open>.id\<close> the response handle.
  A message item has \<^verbatim>\<open>.id\<close> and \<^verbatim>\<open>.content\<close>; a tool-call item (the web-search call that
  precedes the message when tools are enabled) has \<^verbatim>\<open>.id\<close> but no \<^verbatim>\<open>.content\<close>. A content
  block is output text with \<^verbatim>\<open>.text\<close>, or a refusal without it.
\<close>

datatype block = OutputText string | Refusal string

datatype output_item = Message string "block list" | ToolCall string

record response =
  outputs :: "output_item list"
  ident :: string

text \<open>
  A request keeps the keyword arguments of \<^verbatim>\<open>client.responses.create\<close>. The
  \<^verbatim>\<open>input\<close> argument is an f-string or a message list built from the caller's arguments;
  it is kept as those arguments, one constructor per call site, in the order in which the
  text interpolates them. \<^verbatim>\<open>instructions\<close> is the same constant in every call and is
  left out.
\<close>

record search_result =
  query :: pyval
  resp_id :: string
  research_output :: string

datatype prompt =
    ClarifyPrompt string
  | PlanPrompt "string list" "string list" string
  | SearchInput pyval
  | EvaluateMessages pyval "search_result list"
  | MoreSearchesMessages "search_result list" pyval
  | ReportMessages pyval "search_result list"

record request =
  model :: string
  input :: prompt
  previous_response_id :: "string option"
  tools :: "string list"

definition MODEL :: string where
  "MODEL = ''gpt-4.1''"

definition MODEL_MINI :: string where
  "MODEL_MINI = ''gpt-4.1-mini''"

definition TOOLS :: "string list" where
  "TOOLS = [''web_search'']"

text \<open>
  The Gateway is a parameter: a function from a request and the state of the outside
  world to a reply (or the message of the exception it raises) and the new state of the
  world. Nothing is assumed about it. \<open>create\<close> is one call of
  \<^verbatim>\<open>client.responses.create\<close>; it also appends the request and what came back to a
  log of the calls made so far, so that the order of the calls and the failure of a call
  can be stated.

  \<^verbatim>\<open>json.loads\<close> is the second parameter: a function from a text to the value it
  denotes, \<open>None\<close> when the text is not valid JSON.
\<close>

type_synonym 'w gateway = "request \<Rightarrow> 'w \<Rightarrow> (string + response) \<times> 'w"

type_synonym call = "request \<times> (string + response)"

type_synonym 'w io = "'w \<times> call list"

type_synonym json_loads = "string \<Rightarrow> pyval option"

definition create :: "'w gateway \<Rightarrow> request \<Rightarrow> 'w io \<Rightarrow> (error + response) \<times> 'w io" where
  "create gw req io =
     (case gw req (fst io) of
        (Inl msg, w') \<Rightarrow> (Inl (GatewayFailure msg), (w', snd io @ [(req, Inl msg)]))
      | (Inr resp, w') \<Rightarrow> (Inr resp, (w', snd io @ [(req, Inr resp)])))"

definition loads_json :: "json_loads \<Rightarrow> string \<Rightarrow> error + pyval" where
  "loads_json loads text = (case loads text of None \<Rightarrow> Inl JSONDecodeError | Some v \<Rightarrow> Inr v)"

subsection \<open>Python expressions that can raise\<close>

definition index :: "'a list \<Rightarrow> nat \<Rightarrow> error + 'a" where
  "index xs i = (if i < length xs then Inr (xs ! i) else Inl IndexError)"

fun item_id :: "output_item \<Rightarrow> string" where
  "item_id (Message i bs) = i"
| "item_id (ToolCall i) = i"

fun item_content :: "output_item \<Rightarrow> error + block list" where
  "item_content (Message i bs) = Inr bs"
| "item_content (ToolCall i) = Inl AttributeError"

fun block_text :: "block \<Rightarrow> error + string" where
  "block_text (OutputText t) = Inr t"
| "block_text (Refusal r) = Inl AttributeError"

text \<open>\<^verbatim>\<open>item.content[0].text\<close> and \<^verbatim>\<open>resp.output[k].content[0].text\<close>.\<close>

definition item_text :: "output_item \<Rightarrow> error + string" where
  "item_text it =
     (case item_content it of
        Inl e \<Rightarrow> Inl e
      | Inr bs \<Rightarrow> (case index bs 0 of Inl e \<Rightarrow> Inl e | Inr b \<Rightarrow> block_text b))"

definition output_text :: "response \<Rightarrow> nat \<Rightarrow> error + string" where
  "output_text resp k =
     (case index (outputs resp) k of Inl e \<Rightarrow> Inl e | Inr it \<Rightarrow> item_text it)"

text \<open>\<^verbatim>\<open>plan["key"]\<close>: only a dict can be subscripted with a string.\<close>

fun subscript :: "pyval \<Rightarrow> string \<Rightarrow> error + pyval" where
  "subscript (PDict kvs) k = (case map_of kvs k of None \<Rightarrow> Inl KeyError | Some v \<Rightarrow> Inr v)"
| "subscript v k = Inl TypeError"

text \<open>
  The code points of a string: a byte from 128 to 191 continues the code point that the
  byte before it belongs to, every other byte starts one.
\<close>

definition continuation :: "char \<Rightarrow> bool" where
  "continuation c = (let n = (of_char c :: nat) in 128 \<le> n \<and> n < 192)"

fun code_points :: "string \<Rightarrow> string list" where
  "code_points [] = []"
| "code_points (c # cs) =
     (case code_points cs of
        [] \<Rightarrow> [[c]]
      | p # ps \<Rightarrow>
          (case p of
             [] \<Rightarrow> [c] # ps
           | b # bs \<Rightarrow> if continuation b then (c # p) # ps else [c] # p # ps))"

text \<open>\<^verbatim>\<open>for q in v\<close>: the elements of a list, the characters of a string, the keys of a dict.\<close>

fun iterate :: "pyval \<Rightarrow> error + pyval list" where
  "iterate (PList xs) = Inr xs"
| "iterate (PStr s) = Inr (map PStr (code_points s))"
| "iterate (PDict kvs) = Inr (map (\<lambda>kv. PStr (fst kv)) kvs)"
| "iterate v = Inl TypeError"

text \<open>\<^verbatim>\<open>len(v)\<close>.\<close>

fun len :: "pyval \<Rightarrow> error + nat" where
  "len (PList xs) = Inr (length xs)"
| "len (PStr s) = Inr (length (code_points s))"
| "len (PDict kvs) = Inr (length kvs)"
| "len v = Inl TypeError"

subsection \<open>String operations\<close>

text \<open>
  \<^verbatim>\<open>str.lower\<close> as far as the script uses it: the test \<^verbatim>\<open>"yes" in text.lower()\<close>. \<open>lower\<close>
  maps the letters A to Z and leaves every other byte alone; no code point outside ASCII
  has a lower case with y, e or s in it, so the test comes out as in Python.
\<close>

definition lower_char :: "char \<Rightarrow> char" where
  "lower_char c =
     (let n = (of_char c :: nat) in if 65 \<le> n \<and> n \<le> 90 then char_of (n + 32) else c)"

definition lower :: "string \<Rightarrow> string" where
  "lower s = map lower_char s"

fun startswith :: "string \<Rightarrow> string \<Rightarrow> bool" where
  "startswith text [] = True"
| "startswith [] (n # ns) = False"
| "startswith (c # cs) (n # ns) = (c = n \<and> startswith cs ns)"

text \<open>
  \<^verbatim>\<open>str.strip()\<close> removes the white space of Python from both ends: the code points
  U+0009 to U+000D, U+001C to U+0020, U+0085, U+00A0, U+1680, U+2000 to U+200A, U+2028,
  U+2029, U+202F, U+205F and U+3000, here in UTF-8.
\<close>

definition whitespace :: "string list" where
  "whitespace =
     map (\<lambda>n. [char_of n]) ([9..<14] @ [28..<33 :: nat]) @
     [[CHR 0xC2, CHR 0x85], [CHR 0xC2, CHR 0xA0], [CHR 0xE1, CHR 0x9A, CHR 0x80]] @
     map (\<lambda>n. [CHR 0xE2, CHR 0x80, char_of n]) [128..<139 :: nat] @
     [[CHR 0xE2, CHR 0x80, CHR 0xA8], [CHR 0xE2, CHR 0x80, CHR 0xA9],
      [CHR 0xE2, CHR 0x80, CHR 0xAF], [CHR 0xE2, CHR 0x81, CHR 0x9F],
      [CHR 0xE3, CHR 0x80, CHR 0x80]]"

text \<open>
  \<open>lstrip_with ws s\<close> removes from the front of \<open>s\<close> every leading occurrence of one of
  the sequences \<open>ws\<close>. The end of a string is stripped as the front of its reversal.
\<close>

function lstrip_with :: "string list \<Rightarrow> string \<Rightarrow> string" where
  "lstrip_with ws s =
     (case find (\<lambda>w. w \<noteq> [] \<and> startswith s w) ws of
        None \<Rightarrow> s
      | Some w \<Rightarrow> lstrip_with ws (drop (length w) s))"
  by pat_completeness auto
termination
proof (relation "measure (\<lambda>(ws, s). length s)")
  show "wf (measure (\<lambda>(ws, s). length s))" by simp
next
  fix ws :: "string list" and s w :: string
  assume "find (\<lambda>w. w \<noteq> [] \<and> startswith s w) ws = Some w"
  then have "w \<noteq> []" and "startswith s w"
    by (auto simp: find_Some_iff)
  then have "s \<noteq> []" by (cases s; cases w) simp_all
  with \<open>w \<noteq> []\<close> show "((ws, drop (length w) s), (ws, s)) \<in> measure (\<lambda>(ws, s). length s)"
    by simp
qed

definition strip :: "string \<Rightarrow> string" where
  "strip s = rev (lstrip_with (map rev whitespace) (rev (lstrip_with whitespace s)))"

text \<open>\<^verbatim>\<open>str.split(sep)\<close> for a one-byte separator, and \<^verbatim>\<open>needle in text\<close>.\<close>

fun split :: "char \<Rightarrow> string \<Rightarrow> string list" where
  "split sep [] = [[]]"
| "split sep (c # cs) =
     (if c = sep then [] # split sep cs
      else (case split sep cs of [] \<Rightarrow> [[c]] | p # ps \<Rightarrow> (c # p) # ps))"

fun contains :: "string \<Rightarrow> string \<Rightarrow> bool" where
  "contains [] needle = (needle = [])"
| "contains (c # cs) needle = (startswith (c # cs) needle \<or> contains cs needle)"

section \<open>The workflow steps\<close>

text \<open>The keyword arguments of the six calls of \<^verbatim>\<open>client.responses.create\<close>.\<close>

definition clarify_request :: "string \<Rightarrow> request" where
  "clarify_request topic =
     \<lparr>model = MODEL_MINI, input = ClarifyPrompt topic, previous_response_id = None, tools = []\<rparr>"

definition plan_request :: "string \<Rightarrow> string list \<Rightarrow> string list \<Rightarrow> string option \<Rightarrow> request" where
  "plan_request topic questions answers clarify_id =
     \<lparr>model = MODEL, input = PlanPrompt answers questions topic,
      previous_response_id = clarify_id, tools = []\<rparr>"

definition search_request :: "pyval \<Rightarrow> string option \<Rightarrow> request" where
  "search_request q prev =
     \<lparr>model = MODEL, input = SearchInput q, previous_response_id = prev, tools = TOOLS\<rparr>"

definition evaluate_request :: "pyval \<Rightarrow> search_result list \<Rightarrow> request" where
  "evaluate_request goal collected =
     \<lparr>model = MODEL, input = EvaluateMessages goal collected,
      previous_response_id = None, tools = []\<rparr>"

definition more_queries_request :: "search_result list \<Rightarrow> pyval \<Rightarrow> string option \<Rightarrow> request" where
  "more_queries_request collected goal prev =
     \<lparr>model = MODEL, input = MoreSearchesMessages collected goal,
      previous_response_id = prev, tools = []\<rparr>"

definition report_request :: "pyval \<Rightarrow> search_result list \<Rightarrow> request" where
  "report_request goal collected =
     \<lparr>model = MODEL, input = ReportMessages goal collected,
      previous_response_id = None, tools = []\<rparr>"

definition get_clarifying_questions ::
  "'w gateway \<Rightarrow> string \<Rightarrow> 'w io \<Rightarrow> (error + string list \<times> string) \<times> 'w io" where
  "get_clarifying_questions gw topic io =
     (case create gw (clarify_request topic) io of
        (Inl e, io') \<Rightarrow> (Inl e, io')
      | (Inr clarify, io') \<Rightarrow>
          (case output_text clarify 0 of
             Inl e \<Rightarrow> (Inl e, io')
           | Inr text \<Rightarrow>
               (Inr (filter (\<lambda>q. strip q \<noteq> []) (split (CHR 0x0A) text), ident clarify), io')))"

definition get_goal_and_queries ::
  "'w gateway \<Rightarrow> json_loads \<Rightarrow> string \<Rightarrow> string list \<Rightarrow> string list \<Rightarrow> string option \<Rightarrow>
     'w io \<Rightarrow> (error + pyval \<times> string) \<times> 'w io" where
  "get_goal_and_queries gw loads topic questions answers clarify_id io =
     (case create gw (plan_request topic questions answers clarify_id) io of
        (Inl e, io') \<Rightarrow> (Inl e, io')
      | (Inr goal_and_queries, io') \<Rightarrow>
          (case output_text goal_and_queries 0 of
             Inl e \<Rightarrow> (Inl e, io')
           | Inr text \<Rightarrow>
               (case loads_json loads text of
                  Inl e \<Rightarrow> (Inl e, io')
                | Inr plan \<Rightarrow> (Inr (plan, ident goal_and_queries), io'))))"

definition run_search ::
  "'w gateway \<Rightarrow> pyval \<Rightarrow> string option \<Rightarrow> 'w io \<Rightarrow> (error + search_result) \<times> 'w io" where
  "run_search gw q prev io =
     (case create gw (search_request q prev) io of
        (Inl e, io') \<Rightarrow> (Inl e, io')
      | (Inr web_search, io') \<Rightarrow>
          (case index (outputs web_search) 1 of
             Inl e \<Rightarrow> (Inl e, io')
           | Inr it \<Rightarrow>
               (case item_text it of
                  Inl e \<Rightarrow> (Inl e, io')
                | Inr text \<Rightarrow>
                    (Inr \<lparr>query = q, resp_id = item_id it, research_output = text\<rparr>, io'))))"

definition evaluate_responses ::
  "'w gateway \<Rightarrow> pyval \<Rightarrow> search_result list \<Rightarrow> 'w io \<Rightarrow> (error + bool \<times> string) \<times> 'w io" where
  "evaluate_responses gw goal collected io =
     (case create gw (evaluate_request goal collected) io of
        (Inl e, io') \<Rightarrow> (Inl e, io')
      | (Inr review, io') \<Rightarrow>
          (case output_text review 0 of
             Inl e \<Rightarrow> (Inl e, io')
           | Inr response_text \<Rightarrow>
               (Inr (contains (lower response_text) ''yes'', response_text), io')))"

definition get_more_queries ::
  "'w gateway \<Rightarrow> json_loads \<Rightarrow> search_result list \<Rightarrow> pyval \<Rightarrow> string option \<Rightarrow>
     'w io \<Rightarrow> (error + pyval) \<times> 'w io" where
  "get_more_queries gw loads collected goal prev io =
     (case create gw (more_queries_request collected goal prev) io of
        (Inl e, io') \<Rightarrow> (Inl e, io')
      | (Inr more_searches, io') \<Rightarrow>
          (case output_text more_searches 0 of
             Inl e \<Rightarrow> (Inl e, io')
           | Inr text \<Rightarrow>
               (case loads_json loads text of
                  Inl e \<Rightarrow> (Inl e, io')
                | Inr v \<Rightarrow> (Inr v, io'))))"

definition write_final_report ::
  "'w gateway \<Rightarrow> pyval \<Rightarrow> search_result list \<Rightarrow> 'w io \<Rightarrow> (error + string) \<times> 'w io" where
  "write_final_report gw goal collected io =
     (case create gw (report_request goal collected) io of
        (Inl e, io') \<Rightarrow> (Inl e, io')
      | (Inr report, io') \<Rightarrow>
          (case output_text report 0 of
             Inl e \<Rightarrow> (Inl e, io')
           | Inr text \<Rightarrow> (Inr text, io')))"

section \<open>Session state and one run of the script\<close>

text \<open>
  \<^verbatim>\<open>st.session_state\<close> is a dict. \<open>store\<close> is that dict between two runs: each of the
  ten keys of the script is present with a value or absent. The block of
  \<^verbatim>\<open>if 'k' not in st.session_state\<close> at the top of the script gives every absent key its
  default, so the handlers below work on a \<open>session\<close> where all ten are present. The
  entries that Streamlit keeps for the keyed text inputs (\<^verbatim>\<open>answer_0\<close>, ...) belong to the
  widgets: what a widget returns in a run is part of that run's input, \<open>ui\<close>.
\<close>

record session =
  step :: nat
  topic :: string
  questions :: "string list"
  answers :: "string list"
  clarify_id :: "string option"
  goal :: pyval
  queries :: pyval
  goal_and_queries_id :: "string option"
  collected :: "search_result list"
  report :: string

record store =
  step_key :: "nat option"
  topic_key :: "string option"
  questions_key :: "string list option"
  answers_key :: "string list option"
  clarify_id_key :: "string option option"
  goal_key :: "pyval option"
  queries_key :: "pyval option"
  goal_and_queries_id_key :: "string option option"
  collected_key :: "search_result list option"
  report_key :: "string option"

definition default :: "'a \<Rightarrow> 'a option \<Rightarrow> 'a" where
  "default d v = (case v of None \<Rightarrow> d | Some x \<Rightarrow> x)"

definition init :: "store \<Rightarrow> session" where
  "init st =
     \<lparr>step = default 0 (step_key st),
      topic = default [] (topic_key st),
      questions = default [] (questions_key st),
      answers = default [] (answers_key st),
      clarify_id = default None (clarify_id_key st),
      goal = default (PStr []) (goal_key st),
      queries = default (PList []) (queries_key st),
      goal_and_queries_id = default None (goal_and_queries_id_key st),
      collected = default [] (collected_key st),
      report = default [] (report_key st)\<rparr>"

definition store_of :: "session \<Rightarrow> store" where
  "store_of s =
     \<lparr>step_key = Some (step s),
      topic_key = Some (topic s),
      questions_key = Some (questions s),
      answers_key = Some (answers s),
      clarify_id_key = Some (clarify_id s),
      goal_key = Some (goal s),
      queries_key = Some (queries s),
      goal_and_queries_id_key = Some (goal_and_queries_id s),
      collected_key = Some (collected s),
      report_key = Some (report s)\<rparr>"

text \<open>The dict after \<^verbatim>\<open>del st.session_state[key]\<close> for every key.\<close>

definition deleted :: store where
  "deleted =
     \<lparr>step_key = None, topic_key = None, questions_key = None, answers_key = None,
      clarify_id_key = None, goal_key = None, queries_key = None,
      goal_and_queries_id_key = None, collected_key = None, report_key = None\<rparr>"

text \<open>
  The buttons of the script, by label, and the input of one run: what the topic field and
  the answer fields hold, and the button whose click caused the run, if any.
  \<^verbatim>\<open>st.button\<close> is true only in the run caused by a click on that button, and only a
  button that the run reaches is asked.
\<close>

datatype button =
    GenerateClarifyingQuestions
  | GenerateResearchPlan
  | RunWebSearches
  | WriteFinalReport
  | ProceedAnyway
  | GenerateMoreQueries
  | StartNewResearch

record ui =
  topic_input :: string
  answer_input :: "nat \<Rightarrow> string"
  clicked :: "button option"

definition st_button :: "ui \<Rightarrow> button \<Rightarrow> bool" where
  "st_button u b = (clicked u = Some b)"

text \<open>
  A run ends at \<^verbatim>\<open>st.rerun()\<close>, at the end of the script, or with an exception that
  nothing catches. The assignments to the session made before that point stay.
\<close>

datatype outcome = Rerun | Finished | Raised error

text \<open>Step 0: enter topic.\<close>

definition step0 :: "'w gateway \<Rightarrow> ui \<Rightarrow> session \<Rightarrow> 'w io \<Rightarrow> outcome \<times> session \<times> 'w io" where
  "step0 gw u s io =
     (let s1 = s\<lparr>topic := topic_input u\<rparr> in
      if topic s1 \<noteq> [] then
        if st_button u GenerateClarifyingQuestions then
          (case get_clarifying_questions gw (topic s1) io of
             (Inl e, io') \<Rightarrow> (Raised e, s1, io')
           | (Inr (qs, cid), io') \<Rightarrow>
               (Rerun, s1\<lparr>questions := qs, clarify_id := Some cid, step := 1\<rparr>, io'))
        else (Finished, s1, io)
      else (Finished, s1, io))"

text \<open>Step 1: answer clarifying questions. \<^verbatim>\<open>all(answers)\<close>: no answer is the empty string.\<close>

definition all_answers :: "string list \<Rightarrow> bool" where
  "all_answers xs = list_all (\<lambda>a. a \<noteq> []) xs"

definition step1 ::
  "'w gateway \<Rightarrow> json_loads \<Rightarrow> ui \<Rightarrow> session \<Rightarrow> 'w io \<Rightarrow> outcome \<times> session \<times> 'w io" where
  "step1 gw loads u s io =
     (let answers_local = map (answer_input u) [0..<length (questions s)] in
      if all_answers answers_local then
        if st_button u GenerateResearchPlan then
          (let s1 = s\<lparr>answers := answers_local\<rparr> in
           case get_goal_and_queries gw loads (topic s1) (questions s1) (answers s1)
                  (clarify_id s1) io of
             (Inl e, io') \<Rightarrow> (Raised e, s1, io')
           | (Inr (plan, plan_id), io') \<Rightarrow>
               (case subscript plan ''goal'' of
                  Inl e \<Rightarrow> (Raised e, s1, io')
                | Inr g \<Rightarrow>
                    (case subscript plan ''queries'' of
                       Inl e \<Rightarrow> (Raised e, s1\<lparr>goal := g\<rparr>, io')
                     | Inr qs \<Rightarrow>
                         (Rerun,
                          s1\<lparr>goal := g, queries := qs, goal_and_queries_id := Some plan_id,
                             step := 2\<rparr>,
                          io'))))
        else (Finished, s, io)
      else (Finished, s, io))"

text \<open>
  Step 2: run web searches and collect results. The loop appends to the local list
  \<^verbatim>\<open>collected\<close>, which is stored in the session only after the last query.
\<close>

fun search_all ::
  "'w gateway \<Rightarrow> string option \<Rightarrow> pyval list \<Rightarrow> search_result list \<Rightarrow> 'w io \<Rightarrow>
     (error + search_result list) \<times> 'w io" where
  "search_all gw prev [] acc io = (Inr acc, io)"
| "search_all gw prev (q # qs) acc io =
     (case run_search gw q prev io of
        (Inl e, io') \<Rightarrow> (Inl e, io')
      | (Inr r, io') \<Rightarrow> search_all gw prev qs (acc @ [r]) io')"

definition step2 :: "'w gateway \<Rightarrow> ui \<Rightarrow> session \<Rightarrow> 'w io \<Rightarrow> outcome \<times> session \<times> 'w io" where
  "step2 gw u s io =
     (case iterate (queries s) of
        Inl e \<Rightarrow> (Raised e, s, io)
      | Inr qs \<Rightarrow>
          if st_button u RunWebSearches then
            (case search_all gw (goal_and_queries_id s) qs [] io of
               (Inl e, io') \<Rightarrow> (Raised e, s, io')
             | (Inr c, io') \<Rightarrow> (Rerun, s\<lparr>collected := c, step := 3\<rparr>, io'))
          else (Finished, s, io))"

text \<open>Step 3: evaluate and iterate if needed.\<close>

definition step3 ::
  "'w gateway \<Rightarrow> json_loads \<Rightarrow> ui \<Rightarrow> session \<Rightarrow> 'w io \<Rightarrow> outcome \<times> session \<times> 'w io" where
  "step3 gw loads u s io =
     (case evaluate_responses gw (goal s) (collected s) io of
        (Inl e, io1) \<Rightarrow> (Raised e, s, io1)
      | (Inr (is_sufficient, eval_response), io1) \<Rightarrow>
          if is_sufficient then
            if st_button u WriteFinalReport then
              (case write_final_report gw (goal s) (collected s) io1 of
                 (Inl e, io2) \<Rightarrow> (Raised e, s, io2)
               | (Inr r, io2) \<Rightarrow> (Rerun, s\<lparr>report := r, step := 4\<rparr>, io2))
            else (Finished, s, io1)
          else if st_button u ProceedAnyway then
            (case write_final_report gw (goal s) (collected s) io1 of
               (Inl e, io2) \<Rightarrow> (Raised e, s, io2)
             | (Inr r, io2) \<Rightarrow> (Rerun, s\<lparr>report := r, step := 4\<rparr>, io2))
          else if st_button u GenerateMoreQueries then
            (case get_more_queries gw loads (collected s) (goal s) (goal_and_queries_id s) io1 of
               (Inl e, io2) \<Rightarrow> (Raised e, s, io2)
             | (Inr more_queries, io2) \<Rightarrow> (Rerun, s\<lparr>queries := more_queries, step := 2\<rparr>, io2))
          else (Finished, s, io1))"

text \<open>Step 4: display final report. The handler returns the dict itself.\<close>

definition step4 :: "ui \<Rightarrow> session \<Rightarrow> 'w io \<Rightarrow> outcome \<times> store \<times> 'w io" where
  "step4 u s io =
     (if st_button u StartNewResearch then (Rerun, deleted, io)
      else (Finished, store_of s, io))"

text \<open>
  One run of the script: the defaults, then the \<^verbatim>\<open>if\<close>/\<^verbatim>\<open>elif\<close> chain on the step. The
  model covers the runs in which the API key is configured (without it the script stops
  before it touches the session).
\<close>

definition stored :: "outcome \<times> session \<times> 'w io \<Rightarrow> outcome \<times> store \<times> 'w io" where
  "stored r = (case r of (out, s, io) \<Rightarrow> (out, store_of s, io))"

definition script ::
  "'w gateway \<Rightarrow> json_loads \<Rightarrow> ui \<Rightarrow> store \<Rightarrow> 'w io \<Rightarrow> outcome \<times> store \<times> 'w io" where
  "script gw loads u st io =
     (let s = init st in
      if step s = 0 then stored (step0 gw u s io)
      else if step s = 1 then stored (step1 gw loads u s io)
      else if step s = 2 then stored (step2 gw u s io)
      else if step s = 3 then stored (step3 gw loads u s io)
      else if step s = 4 then step4 u s io
      else (Finished, store_of s, io))"

text \<open>
  A user action is the run caused by the click and, when that run ends in
  \<^verbatim>\<open>st.rerun()\<close>, the run that follows at once, in which no button is clicked; \<open>u'\<close> holds
  what the text fields of that second run return.
\<close>

definition action ::
  "'w gateway \<Rightarrow> json_loads \<Rightarrow> ui \<Rightarrow> ui \<Rightarrow> store \<Rightarrow> 'w io \<Rightarrow> outcome \<times> store \<times> 'w io" where
  "action gw loads u u' st io =
     (case script gw loads u st io of
        (Rerun, st', io') \<Rightarrow> script gw loads (u'\<lparr>clicked := None\<rparr>) st' io'
      | r \<Rightarrow> r)"

section \<open>Example collaborators\<close>

text \<open>
  Concrete collaborators for the examples below. \<open>scripted\<close> is a Gateway whose world is
  the list of replies still to come: each call takes the next one, and a call made when
  none is left fails. \<open>text_reply\<close> is a reply of one message with one text block;
  \<open>search_reply\<close> is the reply to a request with the web-search tool, the tool call first
  and the message second. \<open>loads_example\<close> reads the texts used in the examples.
\<close>

definition scripted :: "response list gateway" where
  "scripted req w = (case w of [] \<Rightarrow> (Inl ''connection error'', []) | r # rs \<Rightarrow> (Inr r, rs))"


definition text_reply :: "string \<Rightarrow> string \<Rightarrow> response" where
  "text_reply rid t = \<lparr>outputs = [Message ''msg_1'' [OutputText t]], ident = rid\<rparr>"

definition search_reply :: "string \<Rightarrow> string \<Rightarrow> response" where
  "search_reply rid t =
     \<lparr>outputs = [ToolCall ''ws_1'', Message ''msg_1'' [OutputText t]], ident = rid\<rparr>"

definition plan_text :: string where
  \<open>plan_text = ''{"goal":"G","queries":["a","b","c","d","e"]}''\<close>

definition short_plan_text :: string where
  \<open>short_plan_text = ''{"goal":"G","queries":["a"]}''\<close>

definition more_queries_text :: string where
  \<open>more_queries_text = ''["v","w","x","y","z"]''\<close>

definition one_query_text :: string where
  \<open>one_query_text = ''["v"]''\<close>

definition loads_example :: json_loads where
  "loads_example t =
     (if t = plan_text then
        Some (PDict [(''goal'', PStr ''G''),
                     (''queries'', PList [PStr ''a'', PStr ''b'', PStr ''c'', PStr ''d'', PStr ''e''])])
      else if t = short_plan_text then
        Some (PDict [(''goal'', PStr ''G''), (''queries'', PList [PStr ''a''])])
      else if t = more_queries_text then
        Some (PList [PStr ''v'', PStr ''w'', PStr ''x'', PStr ''y'', PStr ''z''])
      else if t = one_query_text then Some (PList [PStr ''v''])
      else if t = ''7'' then Some (PInt 7)
      else if t = ''[]'' then Some (PList [])
      else None)"

text \<open>
  The words of a text, for the comparison with a word match: the maximal runs of ASCII
  letters. \<open>has_word\<close> is the test that the sufficiency check does not make.
\<close>

definition isalpha :: "char \<Rightarrow> bool" where
  "isalpha c =
     (let n = (of_char c :: nat) in (65 \<le> n \<and> n \<le> 90) \<or> (97 \<le> n \<and> n \<le> 122))"

fun words_from :: "string \<Rightarrow> string \<Rightarrow> string list" where
  "words_from cur [] = (if cur = [] then [] else [cur])"
| "words_from cur (c # cs) =
     (if isalpha c then words_from (cur @ [c]) cs
      else if cur = [] then words_from [] cs
      else cur # words_from [] cs)"

definition has_word :: "string \<Rightarrow> string \<Rightarrow> bool" where
  "has_word text w = (w \<in> set (words_from [] (lower text)))"

text \<open>
  A session in the middle of a research, at a given step, and two inputs of a run: a click
  on a button with the text fields filled in, and a render without a click.
\<close>

definition example_session :: "nat \<Rightarrow> session" where
  "example_session k =
     \<lparr>step = k, topic = ''T'', questions = [''Q1'', ''Q2''], answers = [],
      clarify_id = Some ''resp_1'', goal = PStr ''G'', queries = PList [PStr ''a'', PStr ''b''],
      goal_and_queries_id = Some ''resp_2'', collected = [], report = []\<rparr>"

definition click :: "button \<Rightarrow> ui" where
  "click b = \<lparr>topic_input = ''T'', answer_input = (\<lambda>i. ''A''), clicked = Some b\<rparr>"

definition no_click :: ui where
  "no_click = \<lparr>topic_input = [], answer_input = (\<lambda>i. []), clicked = None\<rparr>"


text \<open>
  \<open>one_call req r io io'\<close>: between \<open>io\<close> and \<open>io'\<close> exactly one call was made, with
  request \<open>req\<close>, and when that call failed the result \<open>r\<close> is its failure.
\<close>

definition one_call :: "request \<Rightarrow> (error + 'a) \<Rightarrow> 'w io \<Rightarrow> 'w io \<Rightarrow> bool" where
  "one_call req r io io' =
     (\<exists>rep. snd io' = snd io @ [(req, rep)] \<and> (\<forall>m. rep = Inl m \<longrightarrow> r = Inl (GatewayFailure m)))"

section \<open>Auxiliary facts\<close>

subsection \<open>Gateway calls and the call log\<close>

lemma create_log:
  assumes "create gw req io = (r, io')"
  shows "\<exists>rep. gw req (fst io) = (rep, fst io') \<and> snd io' = snd io @ [(req, rep)] \<and>
           r = map_sum GatewayFailure id rep"
  using assms by (auto simp: create_def split: prod.splits sum.splits)

lemma create_Inr:
  "gw req (fst io) = (Inr resp, w') \<Longrightarrow> create gw req io = (Inr resp, (w', snd io @ [(req, Inr resp)]))"
  by (simp add: create_def)

lemma create_Inl:
  "gw req (fst io) = (Inl m, w') \<Longrightarrow>
     create gw req io = (Inl (GatewayFailure m), (w', snd io @ [(req, Inl m)]))"
  by (simp add: create_def)

lemma item_content_not_gateway: "item_content it \<noteq> Inl (GatewayFailure m)"
  by (cases it) simp_all

lemma block_text_not_gateway: "block_text b \<noteq> Inl (GatewayFailure m)"
  by (cases b) simp_all

lemma index_not_gateway: "index xs i \<noteq> Inl (GatewayFailure m)"
  by (simp add: index_def)

lemma item_text_not_gateway: "item_text it \<noteq> Inl (GatewayFailure m)"
  by (auto simp: item_text_def item_content_not_gateway block_text_not_gateway
      index_not_gateway split: sum.splits)

lemma output_text_not_gateway: "output_text resp k \<noteq> Inl (GatewayFailure m)"
  by (auto simp: output_text_def item_text_not_gateway index_not_gateway split: sum.splits)

lemma loads_json_not_gateway: "loads_json loads t \<noteq> Inl (GatewayFailure m)"
  by (simp add: loads_json_def split: option.splits)

lemma subscript_not_gateway: "subscript v k \<noteq> Inl (GatewayFailure m)"
  by (cases v) (simp_all split: option.splits)

lemma iterate_not_gateway: "iterate v \<noteq> Inl (GatewayFailure m)"
  by (cases v) simp_all

lemma evaluate_one_call:
  "evaluate_responses gw g c io = (r, io') \<Longrightarrow> one_call (evaluate_request g c) r io io'"
  unfolding evaluate_responses_def one_call_def
  by (auto split: prod.splits sum.splits dest!: create_log simp: output_text_not_gateway)


lemmas not_gateway = output_text_not_gateway item_text_not_gateway index_not_gateway
  loads_json_not_gateway subscript_not_gateway iterate_not_gateway

lemma clarifying_one_call:
  "get_clarifying_questions gw t io = (r, io') \<Longrightarrow> one_call (clarify_request t) r io io'"
  unfolding get_clarifying_questions_def one_call_def
  by (auto split: prod.splits sum.splits dest!: create_log simp: not_gateway)

lemma plan_one_call:
  "get_goal_and_queries gw loads t qs as cid io = (r, io') \<Longrightarrow>
     one_call (plan_request t qs as cid) r io io'"
  unfolding get_goal_and_queries_def one_call_def
  by (auto split: prod.splits sum.splits dest!: create_log simp: not_gateway)

lemma search_one_call:
  "run_search gw q prev io = (r, io') \<Longrightarrow> one_call (search_request q prev) r io io'"
  unfolding run_search_def one_call_def
  by (auto split: prod.splits sum.splits dest!: create_log simp: not_gateway)

lemma more_one_call:
  "get_more_queries gw loads c g prev io = (r, io') \<Longrightarrow>
     one_call (more_queries_request c g prev) r io io'"
  unfolding get_more_queries_def one_call_def
  by (auto split: prod.splits sum.splits dest!: create_log simp: not_gateway)

lemma report_one_call:
  "write_final_report gw g c io = (r, io') \<Longrightarrow> one_call (report_request g c) r io io'"
  unfolding write_final_report_def one_call_def
  by (auto split: prod.splits sum.splits dest!: create_log simp: not_gateway)


lemma search_all_trace:
  "search_all gw prev qs acc io = (r, io') \<Longrightarrow>
     \<exists>es. snd io' = snd io @ es \<and> (\<forall>req m. (req, Inl m) \<in> set es \<longrightarrow> r = Inl (GatewayFailure m))"
proof (induction qs arbitrary: acc io)
  case Nil
  then show ?case by auto
next
  case (Cons q qs)
  obtain r1 io1 where run: "run_search gw q prev io = (r1, io1)"
    by (cases "run_search gw q prev io")
  from search_one_call [OF run] obtain rep where
    log1: "snd io1 = snd io @ [(search_request q prev, rep)]" and
    rep: "\<forall>m. rep = Inl m \<longrightarrow> r1 = Inl (GatewayFailure m)"
    unfolding one_call_def by blast
  show ?case
  proof (cases r1)
    case (Inl e)
    with run Cons.prems have r: "r = Inl e" and io: "io' = io1" by simp_all
    have "\<forall>req m. (req, Inl m) \<in> set [(search_request q prev, rep)] \<longrightarrow> r = Inl (GatewayFailure m)"
      using rep r Inl by auto
    with log1 io show ?thesis by blast
  next
    case (Inr x)
    with run Cons.prems have rest: "search_all gw prev qs (acc @ [x]) io1 = (r, io')" by simp
    from Cons.IH [OF rest] obtain es where
      log2: "snd io' = snd io1 @ es" and
      fail: "\<forall>req m. (req, Inl m) \<in> set es \<longrightarrow> r = Inl (GatewayFailure m)" by blast
    from rep Inr have ok: "\<forall>m. rep \<noteq> Inl m" by auto
    have "snd io' = snd io @ ((search_request q prev, rep) # es)"
      using log1 log2 by simp
    moreover have "\<forall>req m. (req, Inl m) \<in> set ((search_request q prev, rep) # es) \<longrightarrow>
        r = Inl (GatewayFailure m)"
      using fail ok by auto
    ultimately show ?thesis by blast
  qed
qed

lemma step0_trace:
  assumes "step0 gw u s io = (out, s', io')"
  shows "\<exists>es. snd io' = snd io @ es \<and>
    (\<forall>req m. (req, Inl m) \<in> set es \<longrightarrow>
       out = Raised (GatewayFailure m) \<and> s' = s\<lparr>topic := topic_input u\<rparr>)"
  using assms unfolding step0_def Let_def
  by (auto split: if_splits prod.splits sum.splits dest!: clarifying_one_call simp: one_call_def)

lemma step1_trace:
  assumes "step1 gw loads u s io = (out, s', io')"
  shows "\<exists>es. snd io' = snd io @ es \<and>
    (\<forall>req m. (req, Inl m) \<in> set es \<longrightarrow>
       out = Raised (GatewayFailure m) \<and>
       s' = s\<lparr>answers := map (answer_input u) [0..<length (questions s)]\<rparr>)"
  using assms unfolding step1_def Let_def
  by (auto split: if_splits prod.splits sum.splits dest!: plan_one_call simp: one_call_def)

lemma step2_trace:
  assumes "step2 gw u s io = (out, s', io')"
  shows "\<exists>es. snd io' = snd io @ es \<and>
    (\<forall>req m. (req, Inl m) \<in> set es \<longrightarrow> out = Raised (GatewayFailure m) \<and> s' = s)"
  using assms unfolding step2_def
  by (auto split: if_splits prod.splits sum.splits dest!: search_all_trace)

lemma step3_trace:
  assumes "step3 gw loads u s io = (out, s', io')"
  shows "\<exists>es. snd io' = snd io @ es \<and>
    (\<forall>req m. (req, Inl m) \<in> set es \<longrightarrow> out = Raised (GatewayFailure m) \<and> s' = s)"
  using assms unfolding step3_def
  by (auto split: if_splits prod.splits sum.splits
      dest!: evaluate_one_call report_one_call more_one_call simp: one_call_def)


subsection \<open>Substring test and lower case\<close>

lemma startswith_iff: "startswith t n \<longleftrightarrow> (\<exists>ss. t = n @ ss)"
  by (induction t n rule: startswith.induct) auto

lemma contains_iff: "contains t n \<longleftrightarrow> (\<exists>ps ss. t = ps @ n @ ss)"
proof (induction t)
  case Nil
  then show ?case by auto
next
  case (Cons c cs)
  show ?case
  proof
    assume "contains (c # cs) n"
    then consider "startswith (c # cs) n" | "contains cs n" by auto
    then show "\<exists>ps ss. c # cs = ps @ n @ ss"
    proof cases
      case 1
      then obtain ss where "c # cs = n @ ss" by (auto simp: startswith_iff)
      then have "c # cs = [] @ n @ ss" by simp
      then show ?thesis by blast
    next
      case 2
      with Cons obtain ps ss where "cs = ps @ n @ ss" by blast
      then have "c # cs = (c # ps) @ n @ ss" by simp
      then show ?thesis by blast
    qed
  next
    assume "\<exists>ps ss. c # cs = ps @ n @ ss"
    then obtain ps ss where eq: "c # cs = ps @ n @ ss" by blast
    show "contains (c # cs) n"
    proof (cases ps)
      case Nil
      with eq have "startswith (c # cs) n" by (auto simp: startswith_iff)
      then show ?thesis by simp
    next
      case (Cons p ps')
      with eq have "cs = ps' @ n @ ss" by simp
      with Cons.IH have "contains cs n" by blast
      then show ?thesis by simp
    qed
  qed
qed

lemma of_char_lower_char:
  "(of_char (lower_char c) :: nat) =
     (if 65 \<le> (of_char c :: nat) \<and> (of_char c :: nat) \<le> 90 then of_char c + 32 else of_char c)"
  by (simp add: lower_char_def Let_def)

lemma char_eq_nat: "c = d \<longleftrightarrow> (of_char c :: nat) = of_char d"
  by simp

lemma lower_char_y: "lower_char c = CHR ''y'' \<longleftrightarrow> c = CHR ''y'' \<or> c = CHR ''Y''"
  unfolding char_eq_nat [of _ "CHR ''y''"] char_eq_nat [of _ "CHR ''Y''"] of_char_lower_char
  by auto

lemma lower_char_e: "lower_char c = CHR ''e'' \<longleftrightarrow> c = CHR ''e'' \<or> c = CHR ''E''"
  unfolding char_eq_nat [of _ "CHR ''e''"] char_eq_nat [of _ "CHR ''E''"] of_char_lower_char
  by auto

lemma lower_char_s: "lower_char c = CHR ''s'' \<longleftrightarrow> c = CHR ''s'' \<or> c = CHR ''S''"
  unfolding char_eq_nat [of _ "CHR ''s''"] char_eq_nat [of _ "CHR ''S''"] of_char_lower_char
  by auto

lemma contains_lower_yes:
  "contains (lower t) ''yes'' \<longleftrightarrow>
     (\<exists>ps y e s ss. t = ps @ [y, e, s] @ ss \<and> y \<in> {CHR ''y'', CHR ''Y''} \<and>
        e \<in> {CHR ''e'', CHR ''E''} \<and> s \<in> {CHR ''s'', CHR ''S''})"
proof
  assume "contains (lower t) ''yes''"
  then obtain ps ss where "map lower_char t = ps @ ''yes'' @ ss"
    by (auto simp: contains_iff lower_def)
  then obtain ps0 y e s ss0 where "t = ps0 @ [y, e, s] @ ss0"
    "lower_char y = CHR ''y''" "lower_char e = CHR ''e''" "lower_char s = CHR ''s''"
    by (auto simp: map_eq_append_conv map_eq_Cons_conv)
  then show "\<exists>ps y e s ss. t = ps @ [y, e, s] @ ss \<and> y \<in> {CHR ''y'', CHR ''Y''} \<and>
        e \<in> {CHR ''e'', CHR ''E''} \<and> s \<in> {CHR ''s'', CHR ''S''}"
    unfolding lower_char_y lower_char_e lower_char_s by blast
next
  assume "\<exists>ps y e s ss. t = ps @ [y, e, s] @ ss \<and> y \<in> {CHR ''y'', CHR ''Y''} \<and>
        e \<in> {CHR ''e'', CHR ''E''} \<and> s \<in> {CHR ''s'', CHR ''S''}"
  then obtain ps y e s ss where t: "t = ps @ [y, e, s] @ ss" and
    y: "y = CHR ''y'' \<or> y = CHR ''Y''" and e: "e = CHR ''e'' \<or> e = CHR ''E''" and
    s: "s = CHR ''s'' \<or> s = CHR ''S''"
    by auto
  have "lower_char y = CHR ''y''" "lower_char e = CHR ''e''" "lower_char s = CHR ''s''"
    using y e s by (simp_all only: lower_char_y lower_char_e lower_char_s)
  with t have "lower t = lower ps @ ''yes'' @ lower ss"
    by (simp add: lower_def)
  then show "contains (lower t) ''yes''"
    unfolding contains_iff by blast
qed

lemma evaluate_responses_reply:
  assumes "gw (evaluate_request g c) (fst io) = (Inr review, w')"
    and "output_text review 0 = Inr t"
  shows "evaluate_responses gw g c io =
     (Inr (contains (lower t) ''yes'', t), (w', snd io @ [(evaluate_request g c, Inr review)]))"
  using assms by (simp add: evaluate_responses_def create_Inr)

section \<open>The sufficiency evaluator\<close>

text \<open>
  Claim C7. Whatever text the Gateway replies with, \<open>evaluate_responses\<close> returns that text
  and the flag \<open>sufficient\<close>, which is true exactly when the text has three consecutive
  characters y, e, s in any mix of upper and lower case. In particular a reply that
  contains \<^verbatim>\<open>Yes\<close>, \<^verbatim>\<open>yes\<close> or \<^verbatim>\<open>YES\<close> anywhere gives true, and the reply
  \<^verbatim>\<open>No further data needed\<close> gives false.
\<close>

theorem evaluate_responses_yes_substring:
  assumes "gw (evaluate_request g c) (fst io) = (Inr review, w')"
    and "output_text review 0 = Inr t"
  shows "\<exists>sufficient.
     evaluate_responses gw g c io =
       (Inr (sufficient, t), (w', snd io @ [(evaluate_request g c, Inr review)])) \<and>
     (sufficient \<longleftrightarrow>
        (\<exists>ps y e s ss. t = ps @ [y, e, s] @ ss \<and> y \<in> {CHR ''y'', CHR ''Y''} \<and>
           e \<in> {CHR ''e'', CHR ''E''} \<and> s \<in> {CHR ''s'', CHR ''S''})) \<and>
     ((\<exists>ps ss. t = ps @ ''Yes'' @ ss \<or> t = ps @ ''yes'' @ ss \<or> t = ps @ ''YES'' @ ss)
        \<longrightarrow> sufficient) \<and>
     (t = ''No further data needed'' \<longrightarrow> \<not> sufficient)"
proof -
  let ?b = "contains (lower t) ''yes''"
  have run: "evaluate_responses gw g c io =
       (Inr (?b, t), (w', snd io @ [(evaluate_request g c, Inr review)]))"
    using assms by (rule evaluate_responses_reply)
  have iff: "?b \<longleftrightarrow>
        (\<exists>ps y e s ss. t = ps @ [y, e, s] @ ss \<and> y \<in> {CHR ''y'', CHR ''Y''} \<and>
           e \<in> {CHR ''e'', CHR ''E''} \<and> s \<in> {CHR ''s'', CHR ''S''})"
    by (rule contains_lower_yes)
  have yes: "?b" if "t = ps @ ''Yes'' @ ss \<or> t = ps @ ''yes'' @ ss \<or> t = ps @ ''YES'' @ ss"
    for ps ss
  proof -
    from that have "lower t = lower ps @ ''yes'' @ lower ss"
      by (auto simp: lower_def lower_char_y lower_char_e lower_char_s)
    then show ?thesis unfolding contains_iff by blast
  qed
  have no: "\<not> ?b" if "t = ''No further data needed''"
    unfolding that by code_simp
  from run iff yes no show ?thesis by blast
qed

theorem evaluate_responses_yes_substring_witness:
  "evaluate_responses scripted (PStr ''G'') [] ([text_reply ''resp_1'' ''No further data needed''], []) =
     (Inr (False, ''No further data needed''),
      ([], [(evaluate_request (PStr ''G'') [], Inr (text_reply ''resp_1'' ''No further data needed''))]))
   \<and> evaluate_responses scripted (PStr ''G'') [] ([text_reply ''resp_1'' ''YES.''], []) =
     (Inr (True, ''YES.''),
      ([], [(evaluate_request (PStr ''G'') [], Inr (text_reply ''resp_1'' ''YES.''))]))"
proof -
  let ?no = "''No further data needed''" and ?yes = "''YES.''"
  have call: "scripted (evaluate_request (PStr ''G'') []) (fst ([text_reply ''resp_1'' t], [])) =
      (Inr (text_reply ''resp_1'' t), [])" for t
    by (simp add: scripted_def)
  have body: "output_text (text_reply ''resp_1'' t) 0 = Inr t" for t
    by (simp add: output_text_def text_reply_def index_def item_text_def)
  from evaluate_responses_yes_substring [where gw = scripted and io = "([text_reply ''resp_1'' ?no], [])", OF call [of ?no] body [of ?no]]
  have first: "evaluate_responses scripted (PStr ''G'') [] ([text_reply ''resp_1'' ?no], []) =
     (Inr (False, ?no), ([], [(evaluate_request (PStr ''G'') [], Inr (text_reply ''resp_1'' ?no))]))"
    by auto
  have "?yes = [] @ ''YES'' @ ''.''" by simp
  then have "\<exists>ps ss. ?yes = ps @ ''Yes'' @ ss \<or> ?yes = ps @ ''yes'' @ ss \<or> ?yes = ps @ ''YES'' @ ss"
    by blast
  with evaluate_responses_yes_substring [where gw = scripted and io = "([text_reply ''resp_1'' ?yes], [])", OF call [of ?yes] body [of ?yes]]
  have second: "evaluate_responses scripted (PStr ''G'') [] ([text_reply ''resp_1'' ?yes], []) =
     (Inr (True, ?yes), ([], [(evaluate_request (PStr ''G'') [], Inr (text_reply ''resp_1'' ?yes))]))"
    by auto
  from first second show ?thesis by simp
qed


text \<open>
  Claim C9. The check is a substring test on the lower-cased text, not a word match: the
  replies \<^verbatim>\<open>I checked this yesterday\<close> and \<^verbatim>\<open>Eyes\<close> have no word \<^verbatim>\<open>yes\<close>, and for
  both the evaluator returns true.
\<close>

theorem evaluate_responses_not_word_match:
  "\<not> has_word ''I checked this yesterday'' ''yes'' \<and>
   fst (evaluate_responses scripted g c ([text_reply rid ''I checked this yesterday''], [])) =
     Inr (True, ''I checked this yesterday'') \<and>
   \<not> has_word ''Eyes'' ''yes'' \<and>
   fst (evaluate_responses scripted g c ([text_reply rid ''Eyes''], [])) = Inr (True, ''Eyes'')"
proof -
  have call: "scripted (evaluate_request g c) (fst ([text_reply rid t], [])) =
      (Inr (text_reply rid t), [])" for t
    by (simp add: scripted_def)
  have body: "output_text (text_reply rid t) 0 = Inr t" for t
    by (simp add: output_text_def text_reply_def index_def item_text_def)
  have run: "fst (evaluate_responses scripted g c ([text_reply rid t], [])) =
      Inr (contains (lower t) ''yes'', t)" for t
    using evaluate_responses_reply [where gw = scripted and io = "([text_reply rid t], [])",
        OF call body]
    by simp
  have w1: "\<not> has_word ''I checked this yesterday'' ''yes''" by code_simp
  have w2: "\<not> has_word ''Eyes'' ''yes''" by code_simp
  have c1: "contains (lower ''I checked this yesterday'') ''yes''" by code_simp
  have c2: "contains (lower ''Eyes'') ''yes''" by code_simp
  from w1 w2 c1 c2 show ?thesis by (simp add: run)
qed

section \<open>The planner\<close>

lemma get_goal_and_queries_reply:
  assumes "gw (plan_request t qs ans cid) (fst io) = (Inr reply, w')"
    and "output_text reply 0 = Inr body"
  shows "get_goal_and_queries gw loads t qs ans cid io =
     (case loads body of
        None \<Rightarrow> (Inl JSONDecodeError, (w', snd io @ [(plan_request t qs ans cid, Inr reply)]))
      | Some plan \<Rightarrow>
          (Inr (plan, ident reply), (w', snd io @ [(plan_request t qs ans cid, Inr reply)])))"
  using assms
  by (simp add: get_goal_and_queries_def create_Inr loads_json_def split: option.splits)

text \<open>
  Claim C2. When the reply text is the JSON object with goal \<open>G\<close> and the five queries
  \<open>a\<close>, ..., \<open>e\<close>, \<open>get_goal_and_queries\<close> returns a plan whose \<^verbatim>\<open>goal\<close> is \<open>G\<close> and whose
  \<^verbatim>\<open>queries\<close> is that list in order, with the handle of the reply. When the reply text is
  not valid JSON it raises the JSON decode error and returns nothing.
\<close>

theorem get_goal_and_queries_plan_or_error:
  assumes "gw (plan_request t qs ans cid) (fst io) = (Inr reply, w')"
    and "output_text reply 0 = Inr body"
  shows
    "(loads body =
        Some (PDict [(''goal'', PStr G),
                     (''queries'', PList [PStr a, PStr b, PStr c, PStr d, PStr e])]) \<longrightarrow>
      (\<exists>plan.
         get_goal_and_queries gw loads t qs ans cid io =
           (Inr (plan, ident reply), (w', snd io @ [(plan_request t qs ans cid, Inr reply)])) \<and>
         plan = PDict [(''goal'', PStr G),
                       (''queries'', PList [PStr a, PStr b, PStr c, PStr d, PStr e])] \<and>
         subscript plan ''goal'' = Inr (PStr G) \<and>
         subscript plan ''queries'' = Inr (PList [PStr a, PStr b, PStr c, PStr d, PStr e]))) \<and>
     (loads body = None \<longrightarrow>
        get_goal_and_queries gw loads t qs ans cid io =
          (Inl JSONDecodeError, (w', snd io @ [(plan_request t qs ans cid, Inr reply)])))"
  using get_goal_and_queries_reply [where gw = gw and loads = loads, OF assms] by auto

theorem get_goal_and_queries_plan_or_error_witness:
  "get_goal_and_queries scripted loads_example ''T'' [''Q''] [''A''] (Some ''resp_1'')
     ([text_reply ''resp_2'' plan_text], []) =
     (Inr (PDict [(''goal'', PStr ''G''),
                  (''queries'', PList [PStr ''a'', PStr ''b'', PStr ''c'', PStr ''d'', PStr ''e''])],
           ''resp_2''),
      ([], [(plan_request ''T'' [''Q''] [''A''] (Some ''resp_1''),
             Inr (text_reply ''resp_2'' plan_text))])) \<and>
   get_goal_and_queries scripted loads_example ''T'' [''Q''] [''A''] (Some ''resp_1'')
     ([text_reply ''resp_2'' ''Here is the plan''], []) =
     (Inl JSONDecodeError,
      ([], [(plan_request ''T'' [''Q''] [''A''] (Some ''resp_1''),
             Inr (text_reply ''resp_2'' ''Here is the plan''))]))"
proof -
  let ?req = "plan_request ''T'' [''Q''] [''A''] (Some ''resp_1'')"
  have call: "scripted ?req (fst ([text_reply ''resp_2'' b], [])) =
      (Inr (text_reply ''resp_2'' b), [])" for b
    by (simp add: scripted_def)
  have body: "output_text (text_reply ''resp_2'' b) 0 = Inr b" for b
    by (simp add: output_text_def text_reply_def index_def item_text_def)
  have valid: "loads_example plan_text =
      Some (PDict [(''goal'', PStr ''G''),
                   (''queries'', PList [PStr ''a'', PStr ''b'', PStr ''c'', PStr ''d'', PStr ''e''])])"
    by (simp add: loads_example_def)
  have invalid: "loads_example ''Here is the plan'' = None"
    by code_simp
  from get_goal_and_queries_plan_or_error [where gw = scripted and loads = loads_example
      and io = "([text_reply ''resp_2'' plan_text], [])", OF call [of plan_text] body [of plan_text]]
    valid
  have first: "get_goal_and_queries scripted loads_example ''T'' [''Q''] [''A''] (Some ''resp_1'')
     ([text_reply ''resp_2'' plan_text], []) =
     (Inr (PDict [(''goal'', PStr ''G''),
                  (''queries'', PList [PStr ''a'', PStr ''b'', PStr ''c'', PStr ''d'', PStr ''e''])],
           ''resp_2''),
      ([], [(?req, Inr (text_reply ''resp_2'' plan_text))]))"
    by (auto simp: text_reply_def)
  from get_goal_and_queries_plan_or_error [where gw = scripted and loads = loads_example
      and io = "([text_reply ''resp_2'' ''Here is the plan''], [])",
      OF call [of "''Here is the plan''"] body [of "''Here is the plan''"]]
    invalid
  have second: "get_goal_and_queries scripted loads_example ''T'' [''Q''] [''A''] (Some ''resp_1'')
     ([text_reply ''resp_2'' ''Here is the plan''], []) =
     (Inl JSONDecodeError, ([], [(?req, Inr (text_reply ''resp_2'' ''Here is the plan''))]))"
    by auto
  from first second show ?thesis by simp
qed


section \<open>Runs of the script\<close>

lemma init_store_of: "init (store_of s) = s"
  by (simp add: init_def store_of_def default_def)

lemma script_step0: "step s = 0 \<Longrightarrow> script gw loads u (store_of s) io = stored (step0 gw u s io)"
  by (simp add: script_def init_store_of)

lemma script_step1:
  "step s = 1 \<Longrightarrow> script gw loads u (store_of s) io = stored (step1 gw loads u s io)"
  by (simp add: script_def init_store_of)

lemma script_step2: "step s = 2 \<Longrightarrow> script gw loads u (store_of s) io = stored (step2 gw u s io)"
  by (simp add: script_def init_store_of)

lemma script_step3:
  "step s = 3 \<Longrightarrow> script gw loads u (store_of s) io = stored (step3 gw loads u s io)"
  by (simp add: script_def init_store_of)

lemma script_step4: "step s = 4 \<Longrightarrow> script gw loads u (store_of s) io = step4 u s io"
  by (simp add: script_def init_store_of)

lemma store_of_inject: "store_of s = store_of s' \<longleftrightarrow> s = s'"
  by (cases s, cases s') (auto simp: store_of_def)

text \<open>
  Claim C8. In every run of the script on a session whose step is 3, whatever the user
  did, the first Gateway call is the evaluator's request for the current goal and
  collected results; when that call fails the run ends there, with the session as it
  was and no other call made.
\<close>

theorem step3_evaluates_on_every_render:
  assumes "step s = 3"
  shows "\<exists>out st' w' reply rest.
     script gw loads u (store_of s) io = (out, st', (w', snd io @ (evaluate_request (goal s) (collected s), reply) # rest)) \<and>
     fst (gw (evaluate_request (goal s) (collected s)) (fst io)) = reply \<and>
     (\<forall>m. reply = Inl m \<longrightarrow> out = Raised (GatewayFailure m) \<and> st' = store_of s \<and> rest = [])"
proof -
  let ?req = "evaluate_request (goal s) (collected s)"
  obtain reply w1 where gw: "gw ?req (fst io) = (reply, w1)"
    by (cases "gw ?req (fst io)")
  let ?io1 = "(w1, snd io @ [(?req, reply)])"
  show ?thesis
  proof (cases reply)
    case (Inl m)
    with gw have "evaluate_responses gw (goal s) (collected s) io = (Inl (GatewayFailure m), ?io1)"
      by (simp add: evaluate_responses_def create_Inl)
    then have "script gw loads u (store_of s) io = (Raised (GatewayFailure m), store_of s, ?io1)"
      using assms by (simp add: script_step3 step3_def stored_def)
    with gw Inl show ?thesis by auto
  next
    case (Inr review)
    with gw have cr: "create gw ?req io = (Inr review, ?io1)"
      by (simp add: create_Inr)
    obtain out s' io' where run: "step3 gw loads u s io = (out, s', io')"
      by (cases "step3 gw loads u s io")
    have "\<exists>rest. snd io' = snd io @ (?req, reply) # rest"
    proof (cases "output_text review 0")
      case (Inl e)
      with cr run have "io' = ?io1"
        by (auto simp: step3_def evaluate_responses_def)
      then show ?thesis by simp
    next
      case (Inr t)
      with cr have ev: "evaluate_responses gw (goal s) (collected s) io =
          (Inr (contains (lower t) ''yes'', t), ?io1)"
        by (simp add: evaluate_responses_def)
      have "\<exists>rest. snd io' = snd ?io1 @ rest"
        using run unfolding step3_def ev
        by (auto split: if_splits prod.splits sum.splits
            dest!: report_one_call more_one_call simp: one_call_def)
      then show ?thesis by auto
    qed
    then obtain rest where "snd io' = snd io @ (?req, reply) # rest" by blast
    then have "script gw loads u (store_of s) io =
        (out, store_of s', (fst io', snd io @ (?req, reply) # rest))"
      using assms run by (simp add: script_step3 stored_def) (metis prod.collapse)
    with gw Inr show ?thesis by auto
  qed
qed


theorem step3_evaluates_on_every_render_witness:
  "step (example_session 3) = 3 \<and>
   script scripted loads_example (click WriteFinalReport) (store_of (example_session 3)) ([], []) =
     (Raised (GatewayFailure ''connection error''), store_of (example_session 3),
      ([], [(evaluate_request (PStr ''G'') [], Inl ''connection error'')]))"
proof -
  let ?s = "example_session 3"
  have st: "step ?s = 3" by (simp add: example_session_def)
  have down: "scripted req [] = (Inl ''connection error'', [])" for req
    by (simp add: scripted_def)
  have run: "script scripted loads_example (click WriteFinalReport) (store_of ?s) ([], []) =
     (Raised (GatewayFailure ''connection error''), store_of ?s,
      ([], [(evaluate_request (goal ?s) (collected ?s), Inl ''connection error'')]))"
    by (simp add: script_step3 [OF st] step3_def stored_def evaluate_responses_def
        create_def down)
  from step3_evaluates_on_every_render [where gw = scripted and loads = loads_example
      and u = "click WriteFinalReport" and io = "([], [])", OF st] st run
  show ?thesis by (simp add: example_session_def)
qed


section \<open>Planning\<close>

lemma create_Inr_iff:
  "create gw req io = (Inr resp, io') \<longleftrightarrow>
     gw req (fst io) = (Inr resp, fst io') \<and> snd io' = snd io @ [(req, Inr resp)]"
  by (cases io') (auto simp: create_def split: prod.splits sum.splits)

lemma step1_completes:
  assumes "step1 gw loads u s io = (Rerun, s', io')"
  shows "\<exists>reply body plan g qv.
     snd io' = snd io @
       [(plan_request (topic s) (questions s) (map (answer_input u) [0..<length (questions s)])
           (clarify_id s), Inr reply)] \<and>
     gw (plan_request (topic s) (questions s) (map (answer_input u) [0..<length (questions s)])
           (clarify_id s)) (fst io) = (Inr reply, fst io') \<and>
     output_text reply 0 = Inr body \<and> loads body = Some plan \<and>
     subscript plan ''goal'' = Inr g \<and>
     subscript plan ''queries'' = Inr qv \<and>
     s' = s\<lparr>answers := map (answer_input u) [0..<length (questions s)], goal := g,
            queries := qv, goal_and_queries_id := Some (ident reply), step := 2\<rparr>"
  using assms unfolding step1_def get_goal_and_queries_def Let_def loads_json_def
  by (auto split: if_splits prod.splits sum.splits option.splits simp: create_Inr_iff)

lemma step1_accepts:
  assumes "all_answers (map (answer_input u) [0..<length (questions s)])"
    and "clicked u = Some GenerateResearchPlan"
    and "gw (plan_request (topic s) (questions s)
           (map (answer_input u) [0..<length (questions s)]) (clarify_id s)) (fst io) =
         (Inr reply, w')"
    and "output_text reply 0 = Inr body"
    and "loads body = Some plan"
    and "subscript plan ''goal'' = Inr g"
    and "subscript plan ''queries'' = Inr qv"
  shows "step1 gw loads u s io =
     (Rerun,
      s\<lparr>answers := map (answer_input u) [0..<length (questions s)], goal := g, queries := qv,
        goal_and_queries_id := Some (ident reply), step := 2\<rparr>,
      (w', snd io @
         [(plan_request (topic s) (questions s)
             (map (answer_input u) [0..<length (questions s)]) (clarify_id s), Inr reply)]))"
proof -
  let ?ans = "map (answer_input u) [0..<length (questions s)]"
  have "get_goal_and_queries gw loads (topic s) (questions s) ?ans (clarify_id s) io =
      (Inr (plan, ident reply),
       (w', snd io @ [(plan_request (topic s) (questions s) ?ans (clarify_id s), Inr reply)]))"
    using get_goal_and_queries_reply [where gw = gw and loads = loads, OF assms(3,4)] assms(5)
    by simp
  then show ?thesis
    unfolding step1_def Let_def using assms(1,2,6,7) by (simp add: st_button_def)
qed

text \<open>
  Claim C5, as the code has it. At step 1, with every question answered and a click on
  "Generate Research Plan", every Gateway reply whose text is valid JSON for an object
  with the keys \<^verbatim>\<open>goal\<close> and \<^verbatim>\<open>queries\<close> is accepted: the planning transition completes
  with step 2 and with \<^verbatim>\<open>queries\<close> set to the value under the key \<^verbatim>\<open>queries\<close>, whatever
  that value and its length are. Conversely, whenever the transition completes, the
  \<^verbatim>\<open>queries\<close> field is the value under that key of the object parsed from the reply.
\<close>

theorem planning_stores_parsed_queries:
  assumes "step s = 1"
  shows
    "(all_answers (map (answer_input u) [0..<length (questions s)]) \<and>
      clicked u = Some GenerateResearchPlan \<and>
      gw (plan_request (topic s) (questions s)
            (map (answer_input u) [0..<length (questions s)]) (clarify_id s)) (fst io) =
         (Inr reply, w') \<and>
      output_text reply 0 = Inr body \<and> loads body = Some plan \<and>
      subscript plan ''goal'' = Inr g \<and> subscript plan ''queries'' = Inr qv \<longrightarrow>
        script gw loads u (store_of s) io =
          (Rerun,
           store_of (s\<lparr>answers := map (answer_input u) [0..<length (questions s)], goal := g,
             queries := qv, goal_and_queries_id := Some (ident reply), step := 2\<rparr>),
           (w', snd io @
              [(plan_request (topic s) (questions s)
                  (map (answer_input u) [0..<length (questions s)]) (clarify_id s),
                Inr reply)]))) \<and>
     (\<forall>st' io'. script gw loads u (store_of s) io = (Rerun, st', io') \<longrightarrow>
        (\<exists>reply body plan qv.
           snd io' = snd io @
             [(plan_request (topic s) (questions s)
                 (map (answer_input u) [0..<length (questions s)]) (clarify_id s), Inr reply)] \<and>
           output_text reply 0 = Inr body \<and> loads body = Some plan \<and>
           subscript plan ''queries'' = Inr qv \<and>
           queries_key st' = Some qv \<and> step_key st' = Some 2))"
proof (intro conjI impI allI)
  assume a: "all_answers (map (answer_input u) [0..<length (questions s)]) \<and>
      clicked u = Some GenerateResearchPlan \<and>
      gw (plan_request (topic s) (questions s)
            (map (answer_input u) [0..<length (questions s)]) (clarify_id s)) (fst io) =
         (Inr reply, w') \<and>
      output_text reply 0 = Inr body \<and> loads body = Some plan \<and>
      subscript plan ''goal'' = Inr g \<and> subscript plan ''queries'' = Inr qv"
  then have "step1 gw loads u s io =
     (Rerun,
      s\<lparr>answers := map (answer_input u) [0..<length (questions s)], goal := g, queries := qv,
        goal_and_queries_id := Some (ident reply), step := 2\<rparr>,
      (w', snd io @
         [(plan_request (topic s) (questions s)
             (map (answer_input u) [0..<length (questions s)]) (clarify_id s), Inr reply)]))"
    by (intro step1_accepts [where body = body and plan = plan]) simp_all
  then show "script gw loads u (store_of s) io =
          (Rerun,
           store_of (s\<lparr>answers := map (answer_input u) [0..<length (questions s)], goal := g,
             queries := qv, goal_and_queries_id := Some (ident reply), step := 2\<rparr>),
           (w', snd io @
              [(plan_request (topic s) (questions s)
                  (map (answer_input u) [0..<length (questions s)]) (clarify_id s),
                Inr reply)]))"
    using assms by (simp add: script_step1 stored_def)
next
  fix st' io'
  assume fin: "script gw loads u (store_of s) io = (Rerun, st', io')"
  obtain out s' io1 where run: "step1 gw loads u s io = (out, s', io1)"
    by (cases "step1 gw loads u s io")
  with assms fin have "out = Rerun" and st': "st' = store_of s'" and "io1 = io'"
    by (simp_all add: script_step1 stored_def)
  with run have "step1 gw loads u s io = (Rerun, s', io')" by simp
  from step1_completes [OF this] obtain reply body plan g qv where
    log: "snd io' = snd io @
       [(plan_request (topic s) (questions s) (map (answer_input u) [0..<length (questions s)])
           (clarify_id s), Inr reply)]" and
    parsed: "output_text reply 0 = Inr body" "loads body = Some plan"
      "subscript plan ''queries'' = Inr qv" and
    s': "s' = s\<lparr>answers := map (answer_input u) [0..<length (questions s)], goal := g,
            queries := qv, goal_and_queries_id := Some (ident reply), step := 2\<rparr>"
    by blast
  have "queries_key st' = Some qv" "step_key st' = Some 2"
    unfolding st' s' by (simp_all add: store_of_def)
  with log parsed show "\<exists>reply body plan qv.
           snd io' = snd io @
             [(plan_request (topic s) (questions s)
                 (map (answer_input u) [0..<length (questions s)]) (clarify_id s), Inr reply)] \<and>
           output_text reply 0 = Inr body \<and> loads body = Some plan \<and>
           subscript plan ''queries'' = Inr qv \<and>
           queries_key st' = Some qv \<and> step_key st' = Some 2"
    by blast
qed

lemma short_plan_run:
  "script scripted loads_example (click GenerateResearchPlan) (store_of (example_session 1))
     ([text_reply ''resp_3'' short_plan_text], []) =
     (Rerun,
      store_of ((example_session 1)\<lparr>answers := [''A'', ''A''], goal := PStr ''G'',
        queries := PList [PStr ''a''], goal_and_queries_id := Some ''resp_3'', step := 2\<rparr>),
      ([], [(plan_request ''T'' [''Q1'', ''Q2''] [''A'', ''A''] (Some ''resp_1''),
             Inr (text_reply ''resp_3'' short_plan_text))]))"
  by code_simp

theorem planning_queries_length_counterexample:
  "fst (script scripted loads_example (click GenerateResearchPlan) (store_of (example_session 1))
     ([text_reply ''resp_3'' short_plan_text], [])) = Rerun \<and>
   queries_key (fst (snd (script scripted loads_example (click GenerateResearchPlan)
     (store_of (example_session 1)) ([text_reply ''resp_3'' short_plan_text], [])))) =
     Some (PList [PStr ''a'']) \<and>
   len (PList [PStr ''a'']) = Inr 1 \<and> len (PList [PStr ''a'']) \<noteq> Inr 5"
  unfolding short_plan_run by (simp add: store_of_def)

theorem planning_stores_parsed_queries_witness:
  "script scripted loads_example (click GenerateResearchPlan) (store_of (example_session 1))
     ([text_reply ''resp_3'' plan_text], []) =
     (Rerun,
      store_of ((example_session 1)\<lparr>answers := [''A'', ''A''], goal := PStr ''G'',
        queries := PList [PStr ''a'', PStr ''b'', PStr ''c'', PStr ''d'', PStr ''e''],
        goal_and_queries_id := Some ''resp_3'', step := 2\<rparr>),
      ([], [(plan_request ''T'' [''Q1'', ''Q2''] [''A'', ''A''] (Some ''resp_1''),
             Inr (text_reply ''resp_3'' plan_text))])) \<and>
   (\<exists>reply body plan qv.
      [(plan_request ''T'' [''Q1'', ''Q2''] [''A'', ''A''] (Some ''resp_1''),
        Inr (text_reply ''resp_3'' plan_text))] =
      [(plan_request ''T'' [''Q1'', ''Q2''] [''A'', ''A''] (Some ''resp_1''), Inr reply)] \<and>
      output_text reply 0 = Inr body \<and> loads_example body = Some plan \<and>
      subscript plan ''queries'' = Inr qv \<and>
      qv = PList [PStr ''a'', PStr ''b'', PStr ''c'', PStr ''d'', PStr ''e''])"
proof -
  let ?s = "example_session 1"
  let ?u = "click GenerateResearchPlan"
  let ?io = "([text_reply ''resp_3'' plan_text], [])"
  let ?plan = "PDict [(''goal'', PStr ''G''),
      (''queries'', PList [PStr ''a'', PStr ''b'', PStr ''c'', PStr ''d'', PStr ''e''])]"
  have st: "step ?s = 1" by (simp add: example_session_def)
  have ans: "map (answer_input ?u) [0..<length (questions ?s)] = [''A'', ''A'']"
    by code_simp
  have flds: "topic ?s = ''T''" "questions ?s = [''Q1'', ''Q2'']" "clarify_id ?s = Some ''resp_1''"
    by (simp_all add: example_session_def)
  have hyp: "all_answers (map (answer_input ?u) [0..<length (questions ?s)]) \<and>
      clicked ?u = Some GenerateResearchPlan \<and>
      scripted (plan_request (topic ?s) (questions ?s)
            (map (answer_input ?u) [0..<length (questions ?s)]) (clarify_id ?s)) (fst ?io) =
         (Inr (text_reply ''resp_3'' plan_text), []) \<and>
      output_text (text_reply ''resp_3'' plan_text) 0 = Inr plan_text \<and>
      loads_example plan_text = Some ?plan \<and>
      subscript ?plan ''goal'' = Inr (PStr ''G'') \<and>
      subscript ?plan ''queries'' =
        Inr (PList [PStr ''a'', PStr ''b'', PStr ''c'', PStr ''d'', PStr ''e''])"
    unfolding ans
    by (simp add: all_answers_def click_def scripted_def output_text_def text_reply_def
        index_def item_text_def loads_example_def)
  note inst = planning_stores_parsed_queries [where gw = scripted and loads = loads_example
      and u = ?u and io = ?io, OF st]
  from inst [THEN conjunct1, THEN mp, OF hyp]
  have run: "script scripted loads_example ?u (store_of ?s) ?io =
     (Rerun,
      store_of (?s\<lparr>answers := [''A'', ''A''], goal := PStr ''G'',
        queries := PList [PStr ''a'', PStr ''b'', PStr ''c'', PStr ''d'', PStr ''e''],
        goal_and_queries_id := Some ''resp_3'', step := 2\<rparr>),
      ([], [(plan_request ''T'' [''Q1'', ''Q2''] [''A'', ''A''] (Some ''resp_1''),
             Inr (text_reply ''resp_3'' plan_text))]))"
    unfolding ans flds by (simp add: text_reply_def click_def)
  from inst [where reply = "text_reply ''resp_3'' plan_text", THEN conjunct2, rule_format, OF run]
  have converse: "\<exists>reply body plan qv.
      [(plan_request ''T'' [''Q1'', ''Q2''] [''A'', ''A''] (Some ''resp_1''),
        Inr (text_reply ''resp_3'' plan_text))] =
      [(plan_request ''T'' [''Q1'', ''Q2''] [''A'', ''A''] (Some ''resp_1''), Inr reply)] \<and>
      output_text reply 0 = Inr body \<and> loads_example body = Some plan \<and>
      subscript plan ''queries'' = Inr qv \<and>
      qv = PList [PStr ''a'', PStr ''b'', PStr ''c'', PStr ''d'', PStr ''e'']"
    unfolding ans flds by (auto simp: example_session_def store_of_def click_def)
  from run converse show ?thesis by simp
qed

section \<open>More queries\<close>

text \<open>
  Claim C6, as the code has it. At step 3, when the evaluator's reply has no \<^verbatim>\<open>yes\<close> in
  it and the user clicks "Generate 5 More Queries", the \<^verbatim>\<open>queries\<close> field becomes the
  value parsed from the reply to the more-queries request, whatever that value is, and
  the step becomes 2. Every other field is as before; the old \<^verbatim>\<open>queries\<close> value is
  neither sent to the Gateway nor kept. That the new value is a list of five queries is
  not checked.
\<close>

theorem more_queries_replaces_queries:
  assumes "step s = 3"
    and "clicked u = Some GenerateMoreQueries"
    and "gw (evaluate_request (goal s) (collected s)) (fst io) = (Inr review, w1)"
    and "output_text review 0 = Inr verdict"
    and "\<not> contains (lower verdict) ''yes''"
    and "gw (more_queries_request (collected s) (goal s) (goal_and_queries_id s)) w1 =
           (Inr more_searches, w2)"
    and "output_text more_searches 0 = Inr body"
    and "loads body = Some new_queries"
  shows "script gw loads u (store_of s) io =
     (Rerun, store_of (s\<lparr>queries := new_queries, step := 2\<rparr>),
      (w2, snd io @ [(evaluate_request (goal s) (collected s), Inr review),
                     (more_queries_request (collected s) (goal s) (goal_and_queries_id s),
                      Inr more_searches)]))"
proof -
  let ?io1 = "(w1, snd io @ [(evaluate_request (goal s) (collected s), Inr review)])"
  have ev: "evaluate_responses gw (goal s) (collected s) io = (Inr (False, verdict), ?io1)"
    using assms(3-5) by (simp add: evaluate_responses_reply)
  have "gw (more_queries_request (collected s) (goal s) (goal_and_queries_id s)) (fst ?io1) =
      (Inr more_searches, w2)"
    using assms(6) by simp
  then have mq: "get_more_queries gw loads (collected s) (goal s) (goal_and_queries_id s) ?io1 =
      (Inr new_queries, (w2, snd ?io1 @
         [(more_queries_request (collected s) (goal s) (goal_and_queries_id s), Inr more_searches)]))"
    using assms(7,8) by (simp add: get_more_queries_def create_Inr loads_json_def)
  have "step3 gw loads u s io =
     (Rerun, s\<lparr>queries := new_queries, step := 2\<rparr>,
      (w2, snd ?io1 @
         [(more_queries_request (collected s) (goal s) (goal_and_queries_id s), Inr more_searches)]))"
    unfolding step3_def ev using assms(2) by (simp add: st_button_def mq)
  then show ?thesis
    using assms(1) by (simp add: script_step3 stored_def)
qed

theorem more_queries_replaces_queries_witness:
  "script scripted loads_example (click GenerateMoreQueries) (store_of (example_session 3))
     ([text_reply ''resp_4'' ''No'', text_reply ''resp_5'' more_queries_text], []) =
     (Rerun,
      store_of ((example_session 3)\<lparr>queries :=
        PList [PStr ''v'', PStr ''w'', PStr ''x'', PStr ''y'', PStr ''z''], step := 2\<rparr>),
      ([], [(evaluate_request (PStr ''G'') [], Inr (text_reply ''resp_4'' ''No'')),
            (more_queries_request [] (PStr ''G'') (Some ''resp_2''),
             Inr (text_reply ''resp_5'' more_queries_text))]))"
proof -
  let ?s = "example_session 3"
  let ?io = "([text_reply ''resp_4'' ''No'', text_reply ''resp_5'' more_queries_text], [])"
  have st: "step ?s = 3" by (simp add: example_session_def)
  have btn: "clicked (click GenerateMoreQueries) = Some GenerateMoreQueries"
    by (simp add: click_def)
  have c1: "scripted (evaluate_request (goal ?s) (collected ?s)) (fst ?io) =
      (Inr (text_reply ''resp_4'' ''No''), [text_reply ''resp_5'' more_queries_text])"
    by (simp add: scripted_def)
  have t1: "output_text (text_reply ''resp_4'' ''No'') 0 = Inr ''No''"
    by (simp add: output_text_def text_reply_def index_def item_text_def)
  have no: "\<not> contains (lower ''No'') ''yes''" by code_simp
  have c2: "scripted (more_queries_request (collected ?s) (goal ?s) (goal_and_queries_id ?s))
      [text_reply ''resp_5'' more_queries_text] =
      (Inr (text_reply ''resp_5'' more_queries_text), [])"
    by (simp add: scripted_def)
  have t2: "output_text (text_reply ''resp_5'' more_queries_text) 0 = Inr more_queries_text"
    by (simp add: output_text_def text_reply_def index_def item_text_def)
  have parse: "loads_example more_queries_text =
      Some (PList [PStr ''v'', PStr ''w'', PStr ''x'', PStr ''y'', PStr ''z''])"
    by code_simp
  from more_queries_replaces_queries [where gw = scripted and loads = loads_example
      and io = ?io, OF st btn c1 t1 no c2 t2 parse]
  show ?thesis by (simp add: example_session_def)
qed

theorem more_queries_count_counterexample:
  "script scripted loads_example (click GenerateMoreQueries) (store_of (example_session 3))
     ([text_reply ''resp_4'' ''No'', text_reply ''resp_5'' one_query_text], []) =
     (Rerun,
      store_of ((example_session 3)\<lparr>queries := PList [PStr ''v''], step := 2\<rparr>),
      ([], [(evaluate_request (PStr ''G'') [], Inr (text_reply ''resp_4'' ''No'')),
            (more_queries_request [] (PStr ''G'') (Some ''resp_2''),
             Inr (text_reply ''resp_5'' one_query_text))])) \<and>
   len (PList [PStr ''v'']) = Inr 1 \<and>
   len (PList [PStr ''v'']) \<noteq> Inr 5 \<and>
   script scripted loads_example (click GenerateMoreQueries) (store_of (example_session 3))
     ([text_reply ''resp_4'' ''No'', text_reply ''resp_5'' ''7''], []) =
     (Rerun,
      store_of ((example_session 3)\<lparr>queries := PInt 7, step := 2\<rparr>),
      ([], [(evaluate_request (PStr ''G'') [], Inr (text_reply ''resp_4'' ''No'')),
            (more_queries_request [] (PStr ''G'') (Some ''resp_2''),
             Inr (text_reply ''resp_5'' ''7''))])) \<and>
   len (PInt 7) = Inl TypeError"
  by code_simp

section \<open>An empty list of questions\<close>

text \<open>
  Claim C10. At step 1 with an empty list of clarifying questions the list of answers is
  empty, \<^verbatim>\<open>all(answers)\<close> holds, and a click on "Generate Research Plan" stores the empty
  answers and sends the planner's request with no questions and no answers, whatever the
  Gateway then replies. When the reply is a plan, the transition completes as for any
  other list of questions: step 2, with the goal and the queries of the reply. Nothing
  before that asks for a question either: at step 0, a reply to the clarifying request in
  which every line is blank is stored as the empty list of questions and the step
  becomes 1.
\<close>

theorem empty_questions_reach_planner:
  "(step s = 1 \<and> questions s = [] \<and> clicked u = Some GenerateResearchPlan \<longrightarrow>
      all_answers (map (answer_input u) [0..<length (questions s)]) \<and>
      (\<exists>out st' w' reply.
         script gw loads u (store_of s) io =
           (out, st', (w', snd io @ [(plan_request (topic s) [] [] (clarify_id s), reply)])) \<and>
         answers_key st' = Some [])) \<and>
   (step s = 1 \<and> questions s = [] \<and> clicked u = Some GenerateResearchPlan \<and>
    gw (plan_request (topic s) [] [] (clarify_id s)) (fst io) = (Inr reply1, w1) \<and>
    output_text reply1 0 = Inr body1 \<and> loads body1 = Some plan \<and>
    subscript plan ''goal'' = Inr g \<and> subscript plan ''queries'' = Inr qv \<longrightarrow>
      script gw loads u (store_of s) io =
        (Rerun,
         store_of (s\<lparr>answers := [], goal := g, queries := qv,
                      goal_and_queries_id := Some (ident reply1), step := 2\<rparr>),
         (w1, snd io @ [(plan_request (topic s) [] [] (clarify_id s), Inr reply1)]))) \<and>
   (step s = 0 \<and> topic_input u \<noteq> [] \<and> clicked u = Some GenerateClarifyingQuestions \<and>
    gw (clarify_request (topic_input u)) (fst io) = (Inr reply0, w0) \<and>
    output_text reply0 0 = Inr body \<and>
    (\<forall>line \<in> set (split (CHR 0x0A) body). strip line = []) \<longrightarrow>
      script gw loads u (store_of s) io =
        (Rerun,
         store_of (s\<lparr>topic := topic_input u, questions := [], clarify_id := Some (ident reply0),
                      step := 1\<rparr>),
         (w0, snd io @ [(clarify_request (topic_input u), Inr reply0)])))"
proof (intro conjI impI)
  assume a: "step s = 1 \<and> questions s = [] \<and> clicked u = Some GenerateResearchPlan"
  then show "all_answers (map (answer_input u) [0..<length (questions s)])"
    by (simp add: all_answers_def)
  let ?req = "plan_request (topic s) [] [] (clarify_id s)"
  obtain r io1 where plan: "get_goal_and_queries gw loads (topic s) [] [] (clarify_id s) io = (r, io1)"
    by (cases "get_goal_and_queries gw loads (topic s) [] [] (clarify_id s) io")
  from plan_one_call [OF plan] obtain reply where log: "snd io1 = snd io @ [(?req, reply)]"
    unfolding one_call_def by blast
  obtain out s' io' where run: "step1 gw loads u s io = (out, s', io')"
    by (cases "step1 gw loads u s io")
  have res: "io' = io1" "answers s' = []"
    using run a plan unfolding step1_def Let_def
    by (auto simp: all_answers_def st_button_def split: sum.splits prod.splits)
  have io1: "io1 = (fst io1, snd io @ [(?req, reply)])"
    using log by (cases io1) simp
  from a have "script gw loads u (store_of s) io = stored (step1 gw loads u s io)"
    by (simp add: script_step1)
  also have "\<dots> = (out, store_of s', io1)"
    using run res by (simp add: stored_def)
  finally have "script gw loads u (store_of s) io =
      (out, store_of s', (fst io1, snd io @ [(?req, reply)]))"
    using io1 by simp
  moreover have "answers_key (store_of s') = Some []"
    using res by (simp add: store_of_def)
  ultimately have "script gw loads u (store_of s) io =
      (out, store_of s', (fst io1, snd io @ [(?req, reply)])) \<and>
      answers_key (store_of s') = Some []"
    by simp
  then show "\<exists>out st' w' reply.
         script gw loads u (store_of s) io =
           (out, st', (w', snd io @ [(plan_request (topic s) [] [] (clarify_id s), reply)])) \<and>
         answers_key st' = Some []"
    by blast
next
  assume c: "step s = 1 \<and> questions s = [] \<and> clicked u = Some GenerateResearchPlan \<and>
    gw (plan_request (topic s) [] [] (clarify_id s)) (fst io) = (Inr reply1, w1) \<and>
    output_text reply1 0 = Inr body1 \<and> loads body1 = Some plan \<and>
    subscript plan ''goal'' = Inr g \<and> subscript plan ''queries'' = Inr qv"
  then have none: "map (answer_input u) [0..<length (questions s)] = []"
    by simp
  have "step1 gw loads u s io =
     (Rerun,
      s\<lparr>answers := map (answer_input u) [0..<length (questions s)], goal := g, queries := qv,
        goal_and_queries_id := Some (ident reply1), step := 2\<rparr>,
      (w1, snd io @
         [(plan_request (topic s) (questions s)
             (map (answer_input u) [0..<length (questions s)]) (clarify_id s), Inr reply1)]))"
    using c by (intro step1_accepts [where body = body1 and plan = plan])
      (simp_all add: all_answers_def)
  with c show "script gw loads u (store_of s) io =
        (Rerun,
         store_of (s\<lparr>answers := [], goal := g, queries := qv,
                      goal_and_queries_id := Some (ident reply1), step := 2\<rparr>),
         (w1, snd io @ [(plan_request (topic s) [] [] (clarify_id s), Inr reply1)]))"
    by (simp add: script_step1 stored_def)
next
  assume b: "step s = 0 \<and> topic_input u \<noteq> [] \<and> clicked u = Some GenerateClarifyingQuestions \<and>
    gw (clarify_request (topic_input u)) (fst io) = (Inr reply0, w0) \<and>
    output_text reply0 0 = Inr body \<and>
    (\<forall>line \<in> set (split (CHR 0x0A) body). strip line = [])"
  then have none: "filter (\<lambda>q. strip q \<noteq> []) (split (CHR 0x0A) body) = []"
    by (simp add: filter_empty_conv)
  from b have "get_clarifying_questions gw (topic_input u) io =
      (Inr ([], ident reply0), (w0, snd io @ [(clarify_request (topic_input u), Inr reply0)]))"
    by (simp add: get_clarifying_questions_def create_Inr none)
  with b have "step0 gw u s io =
      (Rerun, s\<lparr>topic := topic_input u, questions := [], clarify_id := Some (ident reply0),
                 step := 1\<rparr>,
       (w0, snd io @ [(clarify_request (topic_input u), Inr reply0)]))"
    by (simp add: step0_def st_button_def)
  with b show "script gw loads u (store_of s) io =
        (Rerun,
         store_of (s\<lparr>topic := topic_input u, questions := [], clarify_id := Some (ident reply0),
                      step := 1\<rparr>),
         (w0, snd io @ [(clarify_request (topic_input u), Inr reply0)]))"
    by (simp add: script_step0 stored_def)
qed


theorem empty_questions_reach_planner_witness:
  "all_answers (map (answer_input (click GenerateResearchPlan))
     [0..<length (questions ((example_session 1)\<lparr>questions := []\<rparr>))]) \<and>
   script scripted loads_example (click GenerateResearchPlan)
     (store_of ((example_session 1)\<lparr>questions := []\<rparr>)) ([], []) =
     (Raised (GatewayFailure ''connection error''),
      store_of ((example_session 1)\<lparr>questions := [], answers := []\<rparr>),
      ([], [(plan_request ''T'' [] [] (Some ''resp_1''), Inl ''connection error'')])) \<and>
   script scripted loads_example (click GenerateResearchPlan)
     (store_of ((example_session 1)\<lparr>questions := []\<rparr>))
     ([text_reply ''resp_3'' plan_text], []) =
     (Rerun,
      store_of ((example_session 1)\<lparr>questions := [], answers := [], goal := PStr ''G'',
        queries := PList [PStr ''a'', PStr ''b'', PStr ''c'', PStr ''d'', PStr ''e''],
        goal_and_queries_id := Some ''resp_3'', step := 2\<rparr>),
      ([], [(plan_request ''T'' [] [] (Some ''resp_1''),
             Inr (text_reply ''resp_3'' plan_text))])) \<and>
   script scripted loads_example (click GenerateClarifyingQuestions) (store_of (example_session 0))
     ([text_reply ''resp_9'' [CHR 0x20, CHR 0x0A, CHR 0xC2, CHR 0xA0]], []) =
     (Rerun,
      store_of ((example_session 0)\<lparr>topic := ''T'', questions := [],
        clarify_id := Some ''resp_9'', step := 1\<rparr>),
      ([], [(clarify_request ''T'',
             Inr (text_reply ''resp_9'' [CHR 0x20, CHR 0x0A, CHR 0xC2, CHR 0xA0]))]))"
proof -
  let ?s1 = "(example_session 1)\<lparr>questions := []\<rparr>"
  let ?u1 = "click GenerateResearchPlan"
  have h1: "step ?s1 = 1 \<and> questions ?s1 = [] \<and> clicked ?u1 = Some GenerateResearchPlan"
    by (simp add: example_session_def click_def)
  have run1: "script scripted loads_example ?u1 (store_of ?s1) ([], []) =
     (Raised (GatewayFailure ''connection error''),
      store_of ((example_session 1)\<lparr>questions := [], answers := []\<rparr>),
      ([], [(plan_request ''T'' [] [] (Some ''resp_1''), Inl ''connection error'')]))"
    by code_simp
  from empty_questions_reach_planner [where s = ?s1 and u = ?u1 and gw = scripted
      and loads = loads_example and io = "([], [])", THEN conjunct1, THEN mp, OF h1]
  have first: "all_answers (map (answer_input ?u1) [0..<length (questions ?s1)])"
    by blast
  let ?r1 = "text_reply ''resp_3'' plan_text"
  let ?plan = "PDict [(''goal'', PStr ''G''),
      (''queries'', PList [PStr ''a'', PStr ''b'', PStr ''c'', PStr ''d'', PStr ''e''])]"
  have h2: "step ?s1 = 1 \<and> questions ?s1 = [] \<and> clicked ?u1 = Some GenerateResearchPlan \<and>
    scripted (plan_request (topic ?s1) [] [] (clarify_id ?s1)) (fst ([?r1], [])) = (Inr ?r1, []) \<and>
    output_text ?r1 0 = Inr plan_text \<and> loads_example plan_text = Some ?plan \<and>
    subscript ?plan ''goal'' = Inr (PStr ''G'') \<and>
    subscript ?plan ''queries'' =
      Inr (PList [PStr ''a'', PStr ''b'', PStr ''c'', PStr ''d'', PStr ''e''])"
    by (simp add: example_session_def click_def scripted_def output_text_def text_reply_def
        index_def item_text_def loads_example_def)
  from empty_questions_reach_planner [where s = ?s1 and u = ?u1 and gw = scripted
      and loads = loads_example and io = "([?r1], [])" and ?reply1.0 = ?r1 and ?w1.0 = "[]"
      and ?body1.0 = plan_text and plan = ?plan,
      THEN conjunct2, THEN conjunct1, THEN mp, OF h2]
  have planned: "script scripted loads_example ?u1 (store_of ?s1) ([?r1], []) =
     (Rerun,
      store_of ((example_session 1)\<lparr>questions := [], answers := [], goal := PStr ''G'',
        queries := PList [PStr ''a'', PStr ''b'', PStr ''c'', PStr ''d'', PStr ''e''],
        goal_and_queries_id := Some ''resp_3'', step := 2\<rparr>),
      ([], [(plan_request ''T'' [] [] (Some ''resp_1''), Inr ?r1)]))"
    by (simp add: example_session_def text_reply_def)
  let ?s0 = "example_session 0"
  let ?u0 = "click GenerateClarifyingQuestions"
  let ?blank = "[CHR 0x20, CHR 0x0A, CHR 0xC2, CHR 0xA0]"
  let ?r0 = "text_reply ''resp_9'' ?blank"
  have blank: "\<forall>line \<in> set (split (CHR 0x0A) ?blank). strip line = []"
    by code_simp
  have h0: "step ?s0 = 0 \<and> topic_input ?u0 \<noteq> [] \<and> clicked ?u0 = Some GenerateClarifyingQuestions \<and>
    scripted (clarify_request (topic_input ?u0)) (fst ([?r0], [])) = (Inr ?r0, []) \<and>
    output_text ?r0 0 = Inr ?blank \<and>
    (\<forall>line \<in> set (split (CHR 0x0A) ?blank). strip line = [])"
    using blank
    by (simp add: example_session_def click_def scripted_def output_text_def text_reply_def
        index_def item_text_def)
  from empty_questions_reach_planner [where s = ?s0 and u = ?u0 and gw = scripted
      and loads = loads_example and io = "([?r0], [])" and ?reply0.0 = ?r0 and ?w0.0 = "[]"
      and body = ?blank, THEN conjunct2, THEN conjunct2, THEN mp, OF h0]
  have second: "script scripted loads_example ?u0 (store_of ?s0) ([?r0], []) =
     (Rerun,
      store_of (?s0\<lparr>topic := ''T'', questions := [], clarify_id := Some ''resp_9'', step := 1\<rparr>),
      ([], [(clarify_request ''T'', Inr ?r0)]))"
    by (simp add: click_def text_reply_def)
  from first run1 planned second show ?thesis by simp
qed

section \<open>The search runner\<close>








section \<open>A Gateway call that fails\<close>

lemma same_prefix: "xs @ ys = xs @ zs \<Longrightarrow> ys = zs"
  by simp

text \<open>
  Claim C3, as the code has it. When a Gateway call made during a run fails, the run ends
  with that exception, which nothing catches, and the session is as it was before the
  run except for what the handler assigns before it calls: at step 1 \<^verbatim>\<open>answers\<close> holds
  the submitted answers, and at step 0 \<^verbatim>\<open>topic\<close> holds the text of the topic field. The
  step and every other field are unchanged; at steps 2 and 3 the whole session is.
\<close>

theorem gateway_failure_keeps_step_and_fields:
  assumes "script gw loads u (store_of s) io = (out, st', io')"
    and "snd io' = snd io @ calls"
    and "(req, Inl m) \<in> set calls"
  shows "out = Raised (GatewayFailure m) \<and>
     st' = store_of (s\<lparr>topic := (if step s = 0 then topic_input u else topic s),
                       answers := (if step s = 1
                                   then map (answer_input u) [0..<length (questions s)]
                                   else answers s)\<rparr>)"
proof -
  consider "step s = 0" | "step s = 1" | "step s = 2" | "step s = 3" | "step s = 4"
    | "4 < step s"
    by linarith
  then show ?thesis
  proof cases
    case 1
    obtain s' where run: "step0 gw u s io = (out, s', io')" and st': "st' = store_of s'"
      using assms(1) 1 by (cases "step0 gw u s io") (auto simp: script_step0 stored_def)
    from step0_trace [OF run] obtain es where "snd io' = snd io @ es" and
      fail: "\<forall>req m. (req, Inl m) \<in> set es \<longrightarrow>
         out = Raised (GatewayFailure m) \<and> s' = s\<lparr>topic := topic_input u\<rparr>"
      by (elim exE conjE)
    with assms(2) have "es = calls" by simp
    with fail assms(3) st' 1 show ?thesis by simp
  next
    case 2
    obtain s' where run: "step1 gw loads u s io = (out, s', io')" and st': "st' = store_of s'"
      using assms(1) 2 by (cases "step1 gw loads u s io") (auto simp: script_step1 stored_def)
    from step1_trace [OF run] obtain es where "snd io' = snd io @ es" and
      fail: "\<forall>req m. (req, Inl m) \<in> set es \<longrightarrow>
         out = Raised (GatewayFailure m) \<and>
         s' = s\<lparr>answers := map (answer_input u) [0..<length (questions s)]\<rparr>"
      by (elim exE conjE)
    with assms(2) have "es = calls" by simp
    with fail assms(3) st' 2 show ?thesis by simp
  next
    case 3
    obtain s' where run: "step2 gw u s io = (out, s', io')" and st': "st' = store_of s'"
      using assms(1) 3 by (cases "step2 gw u s io") (auto simp: script_step2 stored_def)
    from step2_trace [OF run] obtain es where "snd io' = snd io @ es" and
      fail: "\<forall>req m. (req, Inl m) \<in> set es \<longrightarrow> out = Raised (GatewayFailure m) \<and> s' = s"
      by (elim exE conjE)
    with assms(2) have "es = calls" by simp
    with fail assms(3) st' 3 show ?thesis by simp
  next
    case 4
    obtain s' where run: "step3 gw loads u s io = (out, s', io')" and st': "st' = store_of s'"
      using assms(1) 4 by (cases "step3 gw loads u s io") (auto simp: script_step3 stored_def)
    from step3_trace [OF run] obtain es where "snd io' = snd io @ es" and
      fail: "\<forall>req m. (req, Inl m) \<in> set es \<longrightarrow> out = Raised (GatewayFailure m) \<and> s' = s"
      by (elim exE conjE)
    with assms(2) have "es = calls" by simp
    with fail assms(3) st' 4 show ?thesis by simp
  next
    case 5
    with assms(1) have "io' = io"
      by (auto simp: script_step4 step4_def split: if_splits)
    with assms(2,3) show ?thesis by simp
  next
    case 6
    with assms(1) have "io' = io"
      by (simp add: script_def init_store_of)
    with assms(2,3) show ?thesis by simp
  qed
qed

theorem gateway_failure_keeps_step_and_fields_witness:
  "script scripted loads_example (click RunWebSearches) (store_of (example_session 2))
     ([search_reply ''resp_7'' ''found''], []) =
     (Raised (GatewayFailure ''connection error''), store_of (example_session 2),
      ([], [(search_request (PStr ''a'') (Some ''resp_2''), Inr (search_reply ''resp_7'' ''found'')),
            (search_request (PStr ''b'') (Some ''resp_2''), Inl ''connection error'')]))"
proof -
  let ?s = "example_session 2"
  let ?calls = "[(search_request (PStr ''a'') (Some ''resp_2''), Inr (search_reply ''resp_7'' ''found'')),
            (search_request (PStr ''b'') (Some ''resp_2''), Inl ''connection error'')]"
  obtain out st' io' where run: "script scripted loads_example (click RunWebSearches) (store_of ?s)
     ([search_reply ''resp_7'' ''found''], []) = (out, st', io')"
    by (cases "script scripted loads_example (click RunWebSearches) (store_of ?s)
     ([search_reply ''resp_7'' ''found''], [])")
  have "snd (script scripted loads_example (click RunWebSearches) (store_of ?s)
     ([search_reply ''resp_7'' ''found''], [])) = (store_of ?s, ([], ?calls))"
    by code_simp
  with run have st': "st' = store_of ?s" and io': "io' = ([], ?calls)" by simp_all
  then have log: "snd io' = snd ([search_reply ''resp_7'' ''found''], []) @ ?calls" by simp
  have mem: "(search_request (PStr ''b'') (Some ''resp_2''), Inl ''connection error'') \<in> set ?calls"
    by simp
  from gateway_failure_keeps_step_and_fields [where gw = scripted and loads = loads_example,
      OF run log mem]
  have "out = Raised (GatewayFailure ''connection error'')" by simp
  with run st' io' show ?thesis by simp
qed

theorem gateway_failure_changes_answers_counterexample:
  "script scripted loads_example (click GenerateResearchPlan) (store_of (example_session 1))
     ([], []) =
     (Raised (GatewayFailure ''connection error''),
      store_of ((example_session 1)\<lparr>answers := [''A'', ''A'']\<rparr>),
      ([], [(plan_request ''T'' [''Q1'', ''Q2''] [''A'', ''A''] (Some ''resp_1''),
             Inl ''connection error'')])) \<and>
   answers_key (store_of (example_session 1)) = Some [] \<and>
   answers_key (store_of ((example_session 1)\<lparr>answers := [''A'', ''A'']\<rparr>)) =
     Some [''A'', ''A''] \<and>
   store_of ((example_session 1)\<lparr>answers := [''A'', ''A'']\<rparr>) \<noteq> store_of (example_session 1)"
  by code_simp

section \<open>Starting again\<close>

lemma step0_step: "step0 gw u s io = (out, s', io') \<Longrightarrow> step s' = step s \<or> step s' = 1"
  unfolding step0_def Let_def
  by (auto split: if_splits prod.splits sum.splits)

lemma step1_step: "step1 gw loads u s io = (out, s', io') \<Longrightarrow> step s' = step s \<or> step s' = 2"
  unfolding step1_def Let_def
  by (auto split: if_splits prod.splits sum.splits)

lemma step2_step: "step2 gw u s io = (out, s', io') \<Longrightarrow> step s' = step s \<or> step s' = 3"
  unfolding step2_def
  by (auto split: if_splits prod.splits sum.splits)

lemma step3_step:
  "step3 gw loads u s io = (out, s', io') \<Longrightarrow> step s' = step s \<or> step s' = 4 \<or> step s' = 2"
  unfolding step3_def
  by (auto split: if_splits prod.splits sum.splits)

lemma init_deleted:
  "init deleted =
     \<lparr>step = 0, topic = [], questions = [], answers = [], clarify_id = None, goal = PStr [],
      queries = PList [], goal_and_queries_id = None, collected = [], report = []\<rparr>"
  by (simp add: init_def deleted_def default_def)

lemma stored_store: "\<exists>s'. fst (snd (stored (out, s', io'))) = store_of s'"
  by (simp add: stored_def)

text \<open>
  Claim C4, as the code has it. The restart button exists only at step 4. There a click on
  it deletes every key of the session and reruns the script, which gives each key its
  empty default again, step 0 among them (the topic is then set to what the topic field
  holds, the empty string for a fresh field). At any other step no input of the user
  makes a run delete the keys: every key stays present, and a step that was not 0 does
  not become 0.
\<close>

theorem restart_only_at_step_4:
  "(step (init st) = 4 \<and> clicked u = Some StartNewResearch \<longrightarrow>
      script gw loads u st io = (Rerun, deleted, io) \<and>
      action gw loads u u' st io =
        (Finished, store_of ((init deleted)\<lparr>topic := topic_input u'\<rparr>), io) \<and>
      init deleted =
        \<lparr>step = 0, topic = [], questions = [], answers = [], clarify_id = None, goal = PStr [],
         queries = PList [], goal_and_queries_id = None, collected = [], report = []\<rparr>) \<and>
   (step (init st) \<noteq> 4 \<longrightarrow>
      (\<exists>s'. fst (snd (script gw loads u st io)) = store_of s' \<and>
         (0 < step (init st) \<longrightarrow> 0 < step s')))"
proof (intro conjI impI)
  assume a: "step (init st) = 4 \<and> clicked u = Some StartNewResearch"
  then show run: "script gw loads u st io = (Rerun, deleted, io)"
    by (simp add: script_def step4_def st_button_def)
  have "script gw loads (u'\<lparr>clicked := None\<rparr>) deleted io =
      (Finished, store_of ((init deleted)\<lparr>topic := topic_input u'\<rparr>), io)"
    by (simp add: script_def init_deleted step0_def st_button_def stored_def Let_def)
  with run show "action gw loads u u' st io =
        (Finished, store_of ((init deleted)\<lparr>topic := topic_input u'\<rparr>), io)"
    by (simp add: action_def)
  show "init deleted =
        \<lparr>step = 0, topic = [], questions = [], answers = [], clarify_id = None, goal = PStr [],
         queries = PList [], goal_and_queries_id = None, collected = [], report = []\<rparr>"
    by (rule init_deleted)
next
  assume b: "step (init st) \<noteq> 4"
  let ?s = "init st"
  consider "step ?s = 0" | "step ?s = 1" | "step ?s = 2" | "step ?s = 3" | "4 < step ?s"
    using b by linarith
  then show "\<exists>s'. fst (snd (script gw loads u st io)) = store_of s' \<and>
         (0 < step (init st) \<longrightarrow> 0 < step s')"
  proof cases
    case 1
    obtain out s' io' where run: "step0 gw u ?s io = (out, s', io')"
      by (cases "step0 gw u ?s io")
    with 1 have "fst (snd (script gw loads u st io)) = store_of s'"
      by (simp add: script_def stored_def)
    with 1 show ?thesis by auto
  next
    case 2
    obtain out s' io' where run: "step1 gw loads u ?s io = (out, s', io')"
      by (cases "step1 gw loads u ?s io")
    with 2 have "fst (snd (script gw loads u st io)) = store_of s'"
      by (simp add: script_def stored_def)
    moreover from step1_step [OF run] 2 have "0 < step s'" by auto
    ultimately show ?thesis by auto
  next
    case 3
    obtain out s' io' where run: "step2 gw u ?s io = (out, s', io')"
      by (cases "step2 gw u ?s io")
    with 3 have "fst (snd (script gw loads u st io)) = store_of s'"
      by (simp add: script_def stored_def)
    moreover from step2_step [OF run] 3 have "0 < step s'" by auto
    ultimately show ?thesis by auto
  next
    case 4
    obtain out s' io' where run: "step3 gw loads u ?s io = (out, s', io')"
      by (cases "step3 gw loads u ?s io")
    with 4 have "fst (snd (script gw loads u st io)) = store_of s'"
      by (simp add: script_def stored_def)
    moreover from step3_step [OF run] 4 have "0 < step s'" by auto
    ultimately show ?thesis by auto
  next
    case 5
    then have "fst (snd (script gw loads u st io)) = store_of ?s"
      by (simp add: script_def)
    with 5 show ?thesis by auto
  qed
qed

theorem restart_only_at_step_4_witness:
  "script scripted loads_example (click StartNewResearch) (store_of (example_session 4)) ([], []) =
     (Rerun, deleted, ([], [])) \<and>
   action scripted loads_example (click StartNewResearch) no_click (store_of (example_session 4))
     ([], []) =
     (Finished,
      store_of \<lparr>step = 0, topic = [], questions = [], answers = [], clarify_id = None,
                goal = PStr [], queries = PList [], goal_and_queries_id = None, collected = [],
                report = []\<rparr>,
      ([], [])) \<and>
   (\<exists>s'. fst (snd (script scripted loads_example (click StartNewResearch)
            (store_of (example_session 2)) ([], []))) = store_of s' \<and> 0 < step s')"
proof -
  have h4: "step (init (store_of (example_session 4))) = 4 \<and>
      clicked (click StartNewResearch) = Some StartNewResearch"
    by (simp add: init_store_of example_session_def click_def)
  have h2: "step (init (store_of (example_session 2))) \<noteq> 4"
    "0 < step (init (store_of (example_session 2)))"
    by (simp_all add: init_store_of example_session_def)
  note first = restart_only_at_step_4 [where st = "store_of (example_session 4)"
      and u = "click StartNewResearch" and u' = no_click and gw = scripted
      and loads = loads_example and io = "([], [])", THEN conjunct1, THEN mp, OF h4]
  note second = restart_only_at_step_4 [where st = "store_of (example_session 2)"
      and u = "click StartNewResearch" and gw = scripted
      and loads = loads_example and io = "([], [])", THEN conjunct2, THEN mp, OF h2(1)]
  from first have a: "script scripted loads_example (click StartNewResearch)
      (store_of (example_session 4)) ([], []) = (Rerun, deleted, ([], []))"
    by simp
  from first have b: "action scripted loads_example (click StartNewResearch) no_click
      (store_of (example_session 4)) ([], []) =
     (Finished,
      store_of \<lparr>step = 0, topic = [], questions = [], answers = [], clarify_id = None,
                goal = PStr [], queries = PList [], goal_and_queries_id = None, collected = [],
                report = []\<rparr>,
      ([], []))"
    by (simp add: no_click_def)
  from second h2(2) have c: "\<exists>s'. fst (snd (script scripted loads_example (click StartNewResearch)
            (store_of (example_session 2)) ([], []))) = store_of s' \<and> 0 < step s'"
    by auto
  from a b c show ?thesis by simp
qed

theorem restart_unavailable_counterexample:
  "script scripted loads_example (click StartNewResearch) (store_of (example_session 2)) ([], []) =
     (Finished, store_of (example_session 2), ([], [])) \<and>
   action scripted loads_example (click StartNewResearch) no_click (store_of (example_session 2))
     ([], []) =
     (Finished, store_of (example_session 2), ([], [])) \<and>
   step_key (store_of (example_session 2)) = Some 2 \<and>
   store_of (example_session 2) \<noteq> deleted"
  by code_simp

end
